theory Spec2Isabelle
  imports Complex_Main "HOL-Library.Sublist"
begin

section \<open>JavaScript values used by the workflow engine\<close>

text \<open>
  Strings are lists of characters. The model reads a character as one UTF-16 code unit
  in the range 0 to 255 (Latin-1), which is the part of the code space an 8-bit
  \<^typ>\<open>char\<close> can hold; the regular expressions and \<open>toLowerCase\<close> below are the
  JavaScript ones restricted to that range. Counters are integers (a double holds an
  integer exactly up to \<open>2^53\<close>). A number that is not an integer is the real value of a
  double, and each division, multiplication and decimal conversion of the code rounds
  its exact result to a double (\<open>double_of\<close> below).
\<close>

definition code :: "char \<Rightarrow> nat" where
  "code c = of_char c"

text \<open>The class \<open>\s\<close> (and what \<open>trim\<close> strips): TAB, LF, VT, FF, CR, space, NBSP.\<close>

definition isSpace :: "char \<Rightarrow> bool" where
  "isSpace c = (code c \<in> {9, 10, 11, 12, 13, 32, 160})"

text \<open>The class \<open>\d\<close>.\<close>

definition isDigit :: "char \<Rightarrow> bool" where
  "isDigit c = (48 \<le> code c \<and> code c \<le> 57)"

text \<open>The characters that \<open>.\<close> does not match: LF and CR.\<close>

definition isLineTerminator :: "char \<Rightarrow> bool" where
  "isLineTerminator c = (code c = 10 \<or> code c = 13)"

text \<open>\<open>String.prototype.toLowerCase\<close>: A to Z, and the Latin-1 capitals (0xC0 to 0xDE
  without the multiplication sign 0xD7), move up by 32.\<close>

definition lowerChar :: "char \<Rightarrow> char" where
  "lowerChar c =
     (if (65 \<le> code c \<and> code c \<le> 90) \<or> (192 \<le> code c \<and> code c \<le> 222 \<and> code c \<noteq> 215)
      then char_of (code c + 32) else c)"

definition toLowerCase :: "string \<Rightarrow> string" where
  "toLowerCase s = map lowerChar s"

text \<open>\<open>String.prototype.includes\<close>: the needle occurs at some position of the text.\<close>

fun includes_str :: "string \<Rightarrow> string \<Rightarrow> bool" where
  "includes_str [] p = (p = [])"
| "includes_str (c # cs) p = (prefix p (c # cs) \<or> includes_str cs p)"

text \<open>\<open>String.prototype.trim\<close>.\<close>

definition trim :: "string \<Rightarrow> string" where
  "trim s = rev (dropWhile isSpace (rev (dropWhile isSpace s)))"

text \<open>The decimal digits of a number, as a template literal prints an integer
  (JavaScript switches to exponent notation only from \<open>10^21\<close> on).\<close>

function string_of_nat :: "nat \<Rightarrow> string" where
  "string_of_nat n =
     (if n < 10 then [char_of (48 + n)]
      else string_of_nat (n div 10) @ [char_of (48 + n mod 10)])"
  by pat_completeness auto
termination
  by (relation "measure id") auto

declare string_of_nat.simps [simp del]

definition string_of_int :: "int \<Rightarrow> string" where
  "string_of_int i =
     (if i < 0 then CHR ''-'' # string_of_nat (nat (- i)) else string_of_nat (nat i))"

section \<open>Progress Store (progressTrackingTool)\<close>

datatype run_status = in_progress | completed | failed | paused

record ChapterDetail =
  cd_chapterNumber :: int
  cd_title :: string
  cd_wordCount :: int
  cd_completedAt :: string

record ProgressData =
  workflowId :: string
  topic :: string
  startTime :: string
  currentStep :: string
  completedChapters :: int
  totalChapters :: int
  completedSections :: int
  totalSections :: int
  totalWordsGenerated :: int
  targetWordCount :: int
  lastUpdate :: string
  status :: run_status
  errors :: "string list"
  completedChapterDetails :: "ChapterDetail list"

text \<open>The directory \<open>workflow_progress\<close>: one JSON file per workflow id. \<open>loadProgress\<close>
  returns \<open>null\<close> for a missing or unreadable file, which is \<open>None\<close> here.\<close>

type_synonym store = "string \<rightharpoonup> ProgressData"

definition loadProgress :: "store \<Rightarrow> string \<Rightarrow> ProgressData option" where
  "loadProgress st wid = st wid"

definition saveProgress :: "store \<Rightarrow> string \<Rightarrow> ProgressData \<Rightarrow> store" where
  "saveProgress st wid p = st(wid \<mapsto> p)"

datatype action = Initialize | Update | Get | Complete | Fail

text \<open>The tool's input (\<open>context\<close>); an optional field that is absent is \<open>None\<close>.\<close>

record ChapterCompleted =
  cc_chapterNumber :: int
  cc_title :: string
  cc_wordCount :: int

record tool_context =
  ctx_action :: action
  ctx_workflowId :: string
  ctx_topic :: "string option"
  ctx_totalChapters :: "int option"
  ctx_totalSections :: "int option"
  ctx_targetWordCount :: "int option"
  ctx_currentStep :: "string option"
  ctx_completedChapters :: "int option"
  ctx_completedSections :: "int option"
  ctx_totalWordsGenerated :: "int option"
  ctx_chapterCompleted :: "ChapterCompleted option"
  ctx_error :: "string option"

text \<open>A context with only the action and the workflow id set.\<close>

definition ctx :: "action \<Rightarrow> string \<Rightarrow> tool_context" where
  "ctx a wid = \<lparr> ctx_action = a, ctx_workflowId = wid, ctx_topic = None,
     ctx_totalChapters = None, ctx_totalSections = None, ctx_targetWordCount = None,
     ctx_currentStep = None, ctx_completedChapters = None, ctx_completedSections = None,
     ctx_totalWordsGenerated = None, ctx_chapterCompleted = None, ctx_error = None \<rparr>"

record progress_view =
  v_workflowId :: string
  v_topic :: string
  v_currentStep :: string
  v_completedChapters :: int
  v_totalChapters :: int
  v_completedSections :: int
  v_totalSections :: int
  v_totalWordsGenerated :: int
  v_targetWordCount :: int
  v_progressPercentage :: int
  v_estimatedTimeRemaining :: string
  v_status :: run_status
  v_lastUpdate :: string

record tool_output =
  success :: bool
  progress :: "progress_view option"
  message :: "string option"

text \<open>The wall clock of one call: the ISO timestamp that \<open>new Date().toISOString()\<close>
  gives, and the milliseconds that the runtime finds between the clock and the record's
  \<open>startTime\<close>.\<close>

record clock =
  nowISO :: string
  elapsedMs :: int

text \<open>An exception is a value: the message of the \<open>Error\<close>.\<close>

datatype error = Error string

fun error_message :: "error \<Rightarrow> string" where
  "error_message (Error m) = m"

text \<open>JavaScript truthiness of an optional string and of an optional number.\<close>

fun truthy_string :: "string option \<Rightarrow> bool" where
  "truthy_string None = False"
| "truthy_string (Some s) = (s \<noteq> [])"

fun truthy_number :: "int option \<Rightarrow> bool" where
  "truthy_number None = False"
| "truthy_number (Some n) = (n \<noteq> 0)"

text \<open>Rounding a real to the nearest integer, a tie going to the even one.\<close>

definition round_even :: "real \<Rightarrow> int" where
  "round_even x =
     (let f = \<lfloor>x\<rfloor>; d = x - real_of_int f
      in if d < 1 / 2 then f else if 1 / 2 < d then f + 1 else if even f then f else f + 1)"

text \<open>The binary exponent of a positive real: \<open>e\<close> with \<open>2^e \<le> x < 2^(e+1)\<close>, found by
  halving or doubling at most \<open>n\<close> times.\<close>

fun binade :: "nat \<Rightarrow> real \<Rightarrow> int" where
  "binade 0 x = 0"
| "binade (Suc n) x =
     (if 2 \<le> x then binade n (x / 2) + 1
      else if x < 1 then binade n (x * 2) - 1
      else 0)"

text \<open>The double (IEEE 754 binary64, round to nearest, ties to even) that an arithmetic
  operation returns for the exact result \<open>x\<close>: \<open>x\<close> rounded to 53 significant bits. The
  model is that of the normal doubles (magnitudes from \<open>2^-1022\<close> up to \<open>2^1024\<close>); the
  quotients and products of the code are in that range for counters below \<open>2^53\<close>.\<close>

definition double_of :: "real \<Rightarrow> real" where
  "double_of x =
     (if x = 0 then 0
      else (let e = binade 1100 \<bar>x\<bar>; u = 2 powi (e - 52)
            in sgn x * real_of_int (round_even (\<bar>x\<bar> / u)) * u))"

text \<open>\<open>Math.round\<close>: the nearest integer, halves going up.\<close>

definition Math_round :: "real \<Rightarrow> int" where
  "Math_round x = \<lfloor>x + 1 / 2\<rfloor>"

definition sectionProgress :: "ProgressData \<Rightarrow> real" where
  "sectionProgress p =
     (if totalSections p > 0
      then double_of (double_of (real_of_int (completedSections p) / real_of_int (totalSections p)) * 100)
      else 0)"

definition wordProgress :: "ProgressData \<Rightarrow> real" where
  "wordProgress p =
     (if targetWordCount p > 0
      then double_of (double_of (real_of_int (totalWordsGenerated p) / real_of_int (targetWordCount p)) * 100)
      else 0)"

definition progressPercentage :: "ProgressData \<Rightarrow> int" where
  "progressPercentage p = Math_round (max (sectionProgress p) (wordProgress p))"

text \<open>The remainder operator \<open>%\<close> on numbers: the quotient is truncated toward zero (the
  result is exact).\<close>

definition js_rem :: "real \<Rightarrow> real \<Rightarrow> real" where
  "js_rem a b = a - b * real_of_int (if a / b < 0 then \<lceil>a / b\<rceil> else \<lfloor>a / b\<rfloor>)"

definition estimatedTimeRemaining :: "clock \<Rightarrow> ProgressData \<Rightarrow> string" where
  "estimatedTimeRemaining clk p =
     (if completedSections p > 0 then
        (let avgTimePerSection =
               double_of (real_of_int (elapsedMs clk) / real_of_int (completedSections p));
             remainingSections = totalSections p - completedSections p;
             remainingMs = double_of (avgTimePerSection * real_of_int remainingSections);
             hours = \<lfloor>double_of (remainingMs / (1000 * 60 * 60))\<rfloor>;
             minutes = \<lfloor>double_of (js_rem remainingMs (1000 * 60 * 60) / (1000 * 60))\<rfloor>
         in if hours > 0 then string_of_int hours @ ''h '' @ string_of_int minutes @ ''m''
            else string_of_int minutes @ ''m'')
      else ''Calculating...'')"

definition view_of :: "ProgressData \<Rightarrow> int \<Rightarrow> string \<Rightarrow> progress_view" where
  "view_of p pct eta = \<lparr> v_workflowId = workflowId p, v_topic = topic p,
     v_currentStep = currentStep p, v_completedChapters = completedChapters p,
     v_totalChapters = totalChapters p, v_completedSections = completedSections p,
     v_totalSections = totalSections p, v_totalWordsGenerated = totalWordsGenerated p,
     v_targetWordCount = targetWordCount p, v_progressPercentage = pct,
     v_estimatedTimeRemaining = eta, v_status = status p, v_lastUpdate = lastUpdate p \<rparr>"

text \<open>The branch \<open>action === 'update'\<close>: the record after the merge.\<close>

definition apply_update :: "clock \<Rightarrow> tool_context \<Rightarrow> ProgressData \<Rightarrow> ProgressData" where
  "apply_update clk c p0 =
     (let p1 = (if truthy_string (ctx_currentStep c)
                then p0\<lparr>currentStep := the (ctx_currentStep c)\<rparr> else p0);
          p2 = (case ctx_completedChapters c of
                  Some n \<Rightarrow> p1\<lparr>completedChapters := n\<rparr> | None \<Rightarrow> p1);
          p3 = (case ctx_completedSections c of
                  Some n \<Rightarrow> p2\<lparr>completedSections := n\<rparr> | None \<Rightarrow> p2);
          p4 = (case ctx_totalWordsGenerated c of
                  Some n \<Rightarrow> p3\<lparr>totalWordsGenerated := n\<rparr> | None \<Rightarrow> p3);
          p5 = (if truthy_string (ctx_error c)
                then p4\<lparr>errors := errors p4 @ [nowISO clk @ '': '' @ the (ctx_error c)]\<rparr>
                else p4);
          p6 = (case ctx_chapterCompleted c of
                  Some d \<Rightarrow> p5\<lparr>completedChapterDetails := completedChapterDetails p5 @
                     [\<lparr> cd_chapterNumber = cc_chapterNumber d, cd_title = cc_title d,
                        cd_wordCount = cc_wordCount d, cd_completedAt = nowISO clk \<rparr>]\<rparr>
                | None \<Rightarrow> p5)
      in p6\<lparr>lastUpdate := nowISO clk\<rparr>)"

text \<open>The branch \<open>action === 'complete'\<close>.\<close>

definition apply_complete :: "clock \<Rightarrow> ProgressData \<Rightarrow> ProgressData" where
  "apply_complete clk p =
     p\<lparr>status := completed, currentStep := ''Completed'', lastUpdate := nowISO clk\<rparr>"

text \<open>The branch \<open>action === 'fail'\<close>.\<close>

definition apply_fail :: "clock \<Rightarrow> tool_context \<Rightarrow> ProgressData \<Rightarrow> ProgressData" where
  "apply_fail clk c p0 =
     (let p1 = p0\<lparr>status := failed, currentStep := ''Failed''\<rparr>;
          p2 = (if truthy_string (ctx_error c)
                then p1\<lparr>errors := errors p1 @ [nowISO clk @ '': '' @ the (ctx_error c)]\<rparr>
                else p1)
      in p2\<lparr>lastUpdate := nowISO clk\<rparr>)"

definition action_name :: "action \<Rightarrow> string" where
  "action_name a = (case a of Initialize \<Rightarrow> ''initialize'' | Update \<Rightarrow> ''update''
      | Get \<Rightarrow> ''get'' | Complete \<Rightarrow> ''complete'' | Fail \<Rightarrow> ''fail'')"

text \<open>The body of the \<open>try\<close> block of \<open>execute\<close>: a \<open>throw\<close> is \<open>Inl\<close>, a \<open>return\<close> is
  \<open>Inr\<close> with the store as the call leaves it.\<close>

definition execute_body :: "clock \<Rightarrow> tool_context \<Rightarrow> store \<Rightarrow> error + (store \<times> tool_output)" where
  "execute_body clk c st =
     (let wid = ctx_workflowId c in
      if ctx_action c = Initialize then
        (if \<not> truthy_string (ctx_topic c) \<or> \<not> truthy_number (ctx_totalChapters c)
            \<or> \<not> truthy_number (ctx_totalSections c) \<or> \<not> truthy_number (ctx_targetWordCount c)
         then Inl (Error ''Topic, totalChapters, totalSections, and targetWordCount are required for initialization'')
         else
           (let p = \<lparr> workflowId = wid, topic = the (ctx_topic c), startTime = nowISO clk,
                      currentStep = ''Initializing'', completedChapters = 0,
                      totalChapters = the (ctx_totalChapters c), completedSections = 0,
                      totalSections = the (ctx_totalSections c), totalWordsGenerated = 0,
                      targetWordCount = the (ctx_targetWordCount c), lastUpdate = nowISO clk,
                      status = in_progress, errors = [], completedChapterDetails = [] \<rparr>
            in Inr (saveProgress st wid p,
                 \<lparr> success = True, progress = Some (view_of p 0 ''Calculating...''),
                    message = Some ''Progress tracking initialized'' \<rparr>)))
      else
        (case loadProgress st wid of
           None \<Rightarrow> Inl (Error (''No progress found for workflow '' @ wid))
         | Some p0 \<Rightarrow>
             (let (p, st') =
                    (if ctx_action c = Update then
                       (let p = apply_update clk c p0 in (p, saveProgress st wid p))
                     else if ctx_action c = Complete then
                       (let p = apply_complete clk p0 in (p, saveProgress st wid p))
                     else if ctx_action c = Fail then
                       (let p = apply_fail clk c p0 in (p, saveProgress st wid p))
                     else (p0, st))
              in Inr (st',
                   \<lparr> success = True,
                      progress = Some (view_of p (progressPercentage p) (estimatedTimeRemaining clk p)),
                      message = Some (''Progress '' @ action_name (ctx_action c) @ '' completed successfully'') \<rparr>))))"

text \<open>\<open>execute\<close>: the \<open>catch\<close> block turns every exception of the body into a normal
  return with \<open>success: false\<close>; the store is as the body left it, and the body writes
  only in the statement before it returns.\<close>

definition execute :: "clock \<Rightarrow> tool_context \<Rightarrow> store \<Rightarrow> error + (store \<times> tool_output)" where
  "execute clk c st =
     (case execute_body clk c st of
        Inl e \<Rightarrow> Inr (st, \<lparr> success = False, progress = None,
                   message = Some (''Progress tracking failed: '' @ error_message e) \<rparr>)
      | Inr r \<Rightarrow> Inr r)"

text \<open>What a caller of the tool has afterwards: the store, and the percentage of the
  returned view.\<close>

definition exec_store :: "clock \<Rightarrow> tool_context \<Rightarrow> store \<Rightarrow> store" where
  "exec_store clk c st = (case execute clk c st of Inr (st', out) \<Rightarrow> st' | Inl e \<Rightarrow> st)"


definition run_calls :: "clock \<Rightarrow> tool_context list \<Rightarrow> store \<Rightarrow> store" where
  "run_calls clk cs st = foldl (\<lambda>s c. exec_store clk c s) st cs"

definition status_of :: "store \<Rightarrow> string \<Rightarrow> run_status option" where
  "status_of st wid = map_option status (st wid)"

text \<open>The context of an \<open>initialize\<close> call.\<close>

definition init_ctx :: "string \<Rightarrow> string \<Rightarrow> int \<Rightarrow> int \<Rightarrow> int \<Rightarrow> tool_context" where
  "init_ctx wid t nch nsec twc = (ctx Initialize wid)\<lparr> ctx_topic := Some t,
     ctx_totalChapters := Some nch, ctx_totalSections := Some nsec,
     ctx_targetWordCount := Some twc \<rparr>"


text \<open>A clock reading for the examples.\<close>

definition clock0 :: clock where
  "clock0 = \<lparr> nowISO = ''2025-01-01T00:00:00.000Z'', elapsedMs = 0 \<rparr>"

section \<open>Word count of generated text\<close>

text \<open>\<open>response.split(/\s+/)\<close>: the text is cut at every maximal run of whitespace; the
  pieces before the first run and after the last one are kept also when they are empty,
  and a text without whitespace (the empty one too) is one piece.\<close>

function split_ws_from :: "string \<Rightarrow> string \<Rightarrow> string list" where
  "split_ws_from cur [] = [cur]"
| "split_ws_from cur (c # cs) =
     (if isSpace c then cur # split_ws_from [] (dropWhile isSpace cs)
      else split_ws_from (cur @ [c]) cs)"
  by pat_completeness auto
termination
  by (relation "measure (\<lambda>(cur, s). length s)") (auto simp: length_dropWhile_le less_Suc_eq_le)

definition split_whitespace :: "string \<Rightarrow> string list" where
  "split_whitespace s = split_ws_from [] s"

definition countWords :: "string \<Rightarrow> int" where
  "countWords response = int (length (split_whitespace response))"

text \<open>The whitespace-delimited tokens of a text, as the specification counts them: the
  maximal runs of characters that are not whitespace.\<close>

fun tokens_from :: "string \<Rightarrow> string \<Rightarrow> string list" where
  "tokens_from cur [] = (if cur = [] then [] else [cur])"
| "tokens_from cur (c # cs) =
     (if isSpace c then (if cur = [] then tokens_from [] cs else cur # tokens_from [] cs)
      else tokens_from (cur @ [c]) cs)"

definition tokens :: "string \<Rightarrow> string list" where
  "tokens s = tokens_from [] s"

section \<open>Content Generation Adapter (chunkedContentGenerationTool)\<close>

record ContentChunk =
  sectionTitle :: "string option"
  content :: string
  wordCount :: int
  chunkIndex :: nat

record ChunkGenerationConfig =
  cfg_topic :: string
  cfg_chapterTitle :: string
  cfg_chapterNumber :: int
  cfg_sectionTitles :: "string list"
  cfg_targetWordsPerSection :: int
  cfg_context :: string
  cfg_retryAttempts :: "int option"

text \<open>What the adapter does, in order: a call of the writing agent (\<open>Attempt k\<close>) or a
  \<open>setTimeout\<close> of so many milliseconds (\<open>Wait ms\<close>).\<close>

datatype event = Attempt nat | Wait int

text \<open>The writing agent is external: \<open>agent n\<close> is what its call number \<open>n\<close> of the run
  (counting from 0) gives, the text or the exception. The prompt is built from the
  configuration and read by the agent only.\<close>

type_synonym writing_agent = "nat \<Rightarrow> error + string"

text \<open>An array read: \<open>undefined\<close> beyond the end, which a template literal prints as a word.\<close>

definition array_get :: "string list \<Rightarrow> nat \<Rightarrow> string option" where
  "array_get xs i = (if i < length xs then Some (xs ! i) else None)"

definition show_opt :: "string option \<Rightarrow> string" where
  "show_opt t = (case t of Some s \<Rightarrow> s | None \<Rightarrow> ''undefined'')"

definition dq :: string where
  "dq = [CHR 0x22]"

definition backoffMs :: "nat \<Rightarrow> int" where
  "backoffMs attempt = min (1000 * 2 ^ (attempt - 1)) 30000"

text \<open>The retry loop \<open>for (let attempt = 1; attempt <= maxRetries; attempt++)\<close> from
  \<open>attempt\<close> on, the agent having been called \<open>n\<close> times: the events, the number of agent
  calls afterwards, and the chunk or the exception.\<close>

function chunk_loop ::
  "writing_agent \<Rightarrow> string option \<Rightarrow> nat \<Rightarrow> int \<Rightarrow> nat \<Rightarrow> nat \<Rightarrow> event list \<times> nat \<times> (error + ContentChunk)" where
  "chunk_loop agent title idx maxRetries attempt n =
     (if int attempt \<le> maxRetries then
        (case agent n of
           Inr response \<Rightarrow>
             ([Attempt attempt], Suc n,
              Inr \<lparr> sectionTitle = title, content = response,
                    wordCount = countWords response, chunkIndex = idx \<rparr>)
         | Inl e \<Rightarrow>
             (if int attempt = maxRetries then
                ([Attempt attempt], Suc n,
                 Inl (Error (''Failed to generate content for section '' @ dq @ show_opt title @ dq
                       @ '' after '' @ string_of_int maxRetries @ '' attempts: '' @ error_message e)))
              else
                (let (tr, n', r) = chunk_loop agent title idx maxRetries (Suc attempt) (Suc n)
                 in (Attempt attempt # Wait (backoffMs attempt) # tr, n', r))))
      else ([], n, Inl (Error (''Failed to generate content for section '' @ dq @ show_opt title @ dq))))"
  by pat_completeness auto
termination
  by (relation "measure (\<lambda>(agent, title, idx, maxRetries, attempt, n). nat (maxRetries + 1 - int attempt))") auto

declare chunk_loop.simps [simp del]

definition maxRetries_of :: "ChunkGenerationConfig \<Rightarrow> int" where
  "maxRetries_of config =
     (if truthy_number (cfg_retryAttempts config) then the (cfg_retryAttempts config) else 3)"

definition generateContentChunk ::
  "writing_agent \<Rightarrow> ChunkGenerationConfig \<Rightarrow> nat \<Rightarrow> nat \<Rightarrow> event list \<times> nat \<times> (error + ContentChunk)" where
  "generateContentChunk agent config sectionIndex n =
     chunk_loop agent (array_get (cfg_sectionTitles config) sectionIndex) sectionIndex
       (maxRetries_of config) 1 n"

text \<open>The tool's \<open>execute\<close> copies its context into the configuration and hands the chunk
  on (with a timestamp, which nothing reads).\<close>

definition chunked_execute ::
  "writing_agent \<Rightarrow> ChunkGenerationConfig \<Rightarrow> nat \<Rightarrow> nat \<Rightarrow> event list \<times> nat \<times> (error + ContentChunk)" where
  "chunked_execute agent context sectionIndex n = generateContentChunk agent context sectionIndex n"

text \<open>The number of agent calls in a sequence of events, and the events of a sequence in
  which \<open>m\<close> attempts are made, as the specification gives the waits.\<close>

definition attempts :: "event list \<Rightarrow> nat" where
  "attempts tr = length (filter (\<lambda>e. case e of Attempt k \<Rightarrow> True | Wait ms \<Rightarrow> False) tr)"

definition spec_events :: "nat \<Rightarrow> event list" where
  "spec_events m =
     concat (map (\<lambda>k. if k = 1 then [Attempt 1]
                       else [Wait (min (1000 * 2 ^ (k - 2)) 30000), Attempt k]) [1 ..< Suc m])"

section \<open>Outline Parser (parseOutlineIntoChapters)\<close>

record Chapter =
  ch_number :: int
  ch_title :: string
  ch_sections :: "string list"
  ch_targetWordCount :: int

text \<open>
  A regular expression is run as JavaScript runs it, by backtracking: each piece maps a
  position (the rest of the line) to the positions after its matches, the match tried
  first coming first; a greedy repetition tries the longest match first.
\<close>

text \<open>\<open>P*\<close> and \<open>P+\<close> for a character class \<open>P\<close>.\<close>

definition star_splits :: "(char \<Rightarrow> bool) \<Rightarrow> string \<Rightarrow> string list" where
  "star_splits P s = map (\<lambda>k. drop k s) (rev [0 ..< Suc (length (takeWhile P s))])"

definition plus_splits :: "(char \<Rightarrow> bool) \<Rightarrow> string \<Rightarrow> string list" where
  "plus_splits P s = map (\<lambda>k. drop k s) (rev [1 ..< Suc (length (takeWhile P s))])"

text \<open>A literal word, and a literal word under the flag \<open>i\<close>.\<close>

definition lit :: "string \<Rightarrow> string \<Rightarrow> string list" where
  "lit w s = (if prefix w s then [drop (length w) s] else [])"

definition lit_ci :: "string \<Rightarrow> string \<Rightarrow> string list" where
  "lit_ci w s =
     (if length w \<le> length s \<and> map lowerChar (take (length w) s) = map lowerChar w
      then [drop (length w) s] else [])"

text \<open>One character of a class.\<close>

definition one_of :: "(char \<Rightarrow> bool) \<Rightarrow> string \<Rightarrow> string list" where
  "one_of P s = (case s of [] \<Rightarrow> [] | c # r \<Rightarrow> if P c then [r] else [])"

text \<open>The group \<open>(.+)$\<close>: the rest of the line, which must not be empty and must hold no
  line terminator; the result is the text of the group.\<close>

definition dot_plus_end :: "string \<Rightarrow> string list" where
  "dot_plus_end s = (if s \<noteq> [] \<and> list_all (\<lambda>c. \<not> isLineTerminator c) s then [s] else [])"

definition first_match :: "string list \<Rightarrow> string option" where
  "first_match ms = (case ms of [] \<Rightarrow> None | t # _ \<Rightarrow> Some t)"

text \<open>The class \<open>[:\.\s]\<close>.\<close>

definition isSep :: "char \<Rightarrow> bool" where
  "isSep c = (c = CHR '':'' \<or> c = CHR ''.'' \<or> isSpace c)"

text \<open>\<open>/^(?:Chapter\s+)?(\d+)[:\.\s]+(.+)$/i\<close>: the title, group 2, of a match.\<close>

definition chapterMatch :: "string \<Rightarrow> string option" where
  "chapterMatch s =
     (let after_keyword = List.bind (lit_ci ''Chapter'' s) (plus_splits isSpace) @ [s];
          after_digits = List.bind after_keyword (plus_splits isDigit);
          after_sep = List.bind after_digits (plus_splits isSep)
      in first_match (List.bind after_sep dot_plus_end))"

text \<open>The class \<open>[-\<bullet>]\<close>. The bullet U+2022 is beyond the 8-bit characters of this model,
  so the hyphen is the only member here.\<close>

definition isBullet :: "char \<Rightarrow> bool" where
  "isBullet c = (c = CHR ''-'')"

text \<open>\<open>(?:Section\s+\d+\.\d+:\s*)?\<close>: with the label first, without it second.\<close>

definition section_label :: "string \<Rightarrow> string list" where
  "section_label s =
     List.bind (List.bind (List.bind (List.bind (List.bind (List.bind
       (lit ''Section'' s) (plus_splits isSpace)) (plus_splits isDigit)) (lit ''.''))
       (plus_splits isDigit)) (lit '':'')) (star_splits isSpace) @ [s]"

text \<open>\<open>/^[-\<bullet>]\s*(?:Section\s+\d+\.\d+:\s*)?(.+)$/\<close>: the title, group 1, of a match.\<close>

definition sectionMatch :: "string \<Rightarrow> string option" where
  "sectionMatch s =
     (let after_bullet = one_of isBullet s;
          after_space = List.bind after_bullet (star_splits isSpace);
          after_label = List.bind after_space section_label
      in first_match (List.bind after_label dot_plus_end))"

text \<open>\<open>outlineText.split('\n')\<close>.\<close>

fun split_lines_from :: "string \<Rightarrow> string \<Rightarrow> string list" where
  "split_lines_from cur [] = [cur]"
| "split_lines_from cur (c # cs) =
     (if c = CHR 0x0A then cur # split_lines_from [] cs else split_lines_from (cur @ [c]) cs)"

definition split_lines :: "string \<Rightarrow> string list" where
  "split_lines s = split_lines_from [] s"

text \<open>The variables of the loop over the lines.\<close>

record parse_state =
  chapters :: "Chapter list"
  currentChapter :: "Chapter option"
  chapterNumber :: int

text \<open>The test of the first \<open>if\<close> of the loop body: the line is a chapter header.\<close>

definition is_chapter_header :: "string \<Rightarrow> bool" where
  "is_chapter_header trimmedLine =
     (chapterMatch trimmedLine \<noteq> None \<and> \<not> prefix ''-'' trimmedLine)"

definition parse_line :: "int \<Rightarrow> string \<Rightarrow> parse_state \<Rightarrow> parse_state" where
  "parse_line wordsPerChapter line ps =
     (let trimmedLine = trim line;
          ps1 = (if is_chapter_header trimmedLine then
                   \<lparr> chapters = (case currentChapter ps of
                                   Some ch \<Rightarrow> chapters ps @ [ch] | None \<Rightarrow> chapters ps),
                      currentChapter = Some \<lparr> ch_number = chapterNumber ps,
                          ch_title = trim (the (chapterMatch trimmedLine)),
                          ch_sections = [], ch_targetWordCount = wordsPerChapter \<rparr>,
                      chapterNumber = chapterNumber ps + 1 \<rparr>
                 else ps)
      in (case (sectionMatch trimmedLine, currentChapter ps1) of
            (Some t, Some ch) \<Rightarrow>
               ps1\<lparr>currentChapter := Some (ch\<lparr>ch_sections := ch_sections ch @ [trim t]\<rparr>)\<rparr>
          | _ \<Rightarrow> ps1))"

definition parse_lines :: "int \<Rightarrow> string list \<Rightarrow> parse_state \<Rightarrow> parse_state" where
  "parse_lines wordsPerChapter ls ps = foldl (\<lambda>s l. parse_line wordsPerChapter l s) ps ls"

definition default_chapter :: "int \<Rightarrow> int \<Rightarrow> Chapter" where
  "default_chapter wordsPerChapter i =
     \<lparr> ch_number = i, ch_title = ''Chapter '' @ string_of_int i,
        ch_sections = [''Introduction'', ''Core Concepts'', ''Practical Examples'',
                       ''Advanced Topics'', ''Summary''],
        ch_targetWordCount = wordsPerChapter \<rparr>"

definition parseOutlineIntoChapters :: "string \<Rightarrow> int \<Rightarrow> Chapter list" where
  "parseOutlineIntoChapters outlineText targetWordCount' =
     (let estimatedChapters = 10;
          wordsPerChapter = targetWordCount' div estimatedChapters;
          ps = parse_lines wordsPerChapter (split_lines outlineText)
                 \<lparr> chapters = [], currentChapter = None, chapterNumber = 1 \<rparr>;
          chapters1 = (case currentChapter ps of
                         Some ch \<Rightarrow> chapters ps @ [ch] | None \<Rightarrow> chapters ps)
      in if length chapters1 = 0 then map (default_chapter wordsPerChapter) [1 .. 8]
         else chapters1)"

section \<open>Publication Gate (reviewContentStep)\<close>

text \<open>The expression that decides \<open>approvedForPublication\<close>.\<close>

definition approvedForPublication :: "real \<Rightarrow> string \<Rightarrow> bool" where
  "approvedForPublication qualityScore reviewText =
     (qualityScore \<ge> 7.0
      \<and> \<not> includes_str (toLowerCase reviewText) ''not approved''
      \<and> \<not> includes_str (toLowerCase reviewText) ''needs major revision'')"

text \<open>The specification's wording: the phrase occurs in the text when the case of the
  letters is ignored.\<close>

definition same_letter :: "char \<Rightarrow> char \<Rightarrow> bool" where
  "same_letter a b = (lowerChar a = lowerChar b)"

definition contains_ci :: "string \<Rightarrow> string \<Rightarrow> bool" where
  "contains_ci text phrase =
     (\<exists>before mid after. text = before @ mid @ after \<and> list_all2 same_letter mid phrase)"

section \<open>Pipeline stages (improvedEducationalContentWorkflow)\<close>

text \<open>A stage reaches the Progress Store through the tool only. The state of a run is the
  store, the stores as each call of the tool left them (a history that the code does not
  keep, recorded here to state what a monitor can observe), and the number of calls of the
  writing agent so far. The tool returns normally on every input, and the stages read its
  result only after \<open>initialize\<close>.\<close>

record run_state =
  g_store :: store
  g_trail :: "store list"
  g_agent_calls :: nat

definition call_progress :: "clock \<Rightarrow> tool_context \<Rightarrow> run_state \<Rightarrow> run_state" where
  "call_progress clk c s =
     (let st' = exec_store clk c (g_store s)
      in s\<lparr>g_store := st', g_trail := g_trail s @ [st']\<rparr>)"

definition start_state :: "store \<Rightarrow> run_state" where
  "start_state st = \<lparr> g_store = st, g_trail = [], g_agent_calls = 0 \<rparr>"

subsection \<open>PLAN: initializeAndPlanStep, from the outline text on\<close>

record plan_input =
  pi_topic :: string
  pi_targetAudience :: string
  pi_targetWordCount :: int

record generate_input =
  gi_workflowId :: string
  gi_topic :: string
  gi_outline :: string
  gi_chapters :: "Chapter list"
  gi_totalSections :: int
  gi_progressInitialized :: bool

text \<open>The workflow id (built from the clock and a random number) and the outline that the
  idea agent wrote are parameters.\<close>

definition initializeAndPlanStep ::
  "clock \<Rightarrow> string \<Rightarrow> string \<Rightarrow> plan_input \<Rightarrow> run_state \<Rightarrow> run_state \<times> generate_input" where
  "initializeAndPlanStep clk workflowId' outlineText inputData s =
     (let chapters' = parseOutlineIntoChapters outlineText (pi_targetWordCount inputData);
          totalSections' = foldl (\<lambda>sum chapter. sum + int (length (ch_sections chapter))) 0 chapters';
          c = init_ctx workflowId' (pi_topic inputData) (int (length chapters')) totalSections'
                (pi_targetWordCount inputData);
          ok = (case execute clk c (g_store s) of Inr (st', out) \<Rightarrow> success out | Inl e \<Rightarrow> False)
      in (call_progress clk c s,
          \<lparr> gi_workflowId = workflowId', gi_topic = pi_topic inputData, gi_outline = outlineText,
             gi_chapters = chapters', gi_totalSections = totalSections',
             gi_progressInitialized = ok \<rparr>))"

subsection \<open>GENERATE: generateAllContentStep\<close>

record Section =
  sec_title :: "string option"
  sec_content :: string
  sec_wordCount :: int

record GeneratedChapter =
  gc_number :: int
  gc_title :: string
  gc_content :: string
  gc_wordCount :: int
  gc_sections :: "Section list"

text \<open>The variables of the loop over the sections of a chapter, and of the loop over the
  chapters.\<close>

record section_vars =
  chapterSections :: "Section list"
  chapterWordCount :: int
  sv_completedSections :: int

record chapter_vars =
  generatedChapters :: "GeneratedChapter list"
  totalWordCount :: int
  cv_completedSections :: int

definition join :: "string \<Rightarrow> string list \<Rightarrow> string" where
  "join sep xs = (case xs of [] \<Rightarrow> [] | x # r \<Rightarrow> x @ concat (map (\<lambda>y. sep @ y) r))"

definition chunk_config :: "generate_input \<Rightarrow> Chapter \<Rightarrow> int \<Rightarrow> ChunkGenerationConfig" where
  "chunk_config inp chapter targetWordsPerSection =
     \<lparr> cfg_topic = gi_topic inp, cfg_chapterTitle = ch_title chapter,
        cfg_chapterNumber = ch_number chapter, cfg_sectionTitles = ch_sections chapter,
        cfg_targetWordsPerSection = targetWordsPerSection, cfg_context = gi_outline inp,
        cfg_retryAttempts = Some 3 \<rparr>"

text \<open>The loop \<open>for (let sectionIndex = 0; ...)\<close> from \<open>sectionIndex\<close> on; the list is what
  is left of \<open>chapter.sections\<close> from that index. An exception of the chunk tool is
  recorded with an \<open>update\<close> and thrown again.\<close>

fun sections_loop ::
  "writing_agent \<Rightarrow> clock \<Rightarrow> generate_input \<Rightarrow> Chapter \<Rightarrow> int \<Rightarrow> int \<Rightarrow> nat \<Rightarrow> string list
     \<Rightarrow> section_vars \<Rightarrow> run_state \<Rightarrow> run_state \<times> (error + section_vars)" where
  "sections_loop agent clk inp chapter totalWordCount' targetWordsPerSection sectionIndex [] v s =
     (s, Inr v)"
| "sections_loop agent clk inp chapter totalWordCount' targetWordsPerSection sectionIndex
     (sectionTitle' # rest) v s =
     (case chunked_execute agent (chunk_config inp chapter targetWordsPerSection) sectionIndex
             (g_agent_calls s) of
        (tr, n', Inr sectionResult) \<Rightarrow>
          (let v' = \<lparr> chapterSections = chapterSections v @
                         [\<lparr> sec_title = sectionTitle sectionResult,
                             sec_content = content sectionResult,
                             sec_wordCount = wordCount sectionResult \<rparr>],
                      chapterWordCount = chapterWordCount v + wordCount sectionResult,
                      sv_completedSections = sv_completedSections v + 1 \<rparr>;
               s' = call_progress clk
                      ((ctx Update (gi_workflowId inp))
                         \<lparr> ctx_completedSections := Some (sv_completedSections v'),
                            ctx_totalWordsGenerated := Some (totalWordCount' + chapterWordCount v') \<rparr>)
                      (s\<lparr>g_agent_calls := n'\<rparr>)
           in sections_loop agent clk inp chapter totalWordCount' targetWordsPerSection
                (Suc sectionIndex) rest v' s')
      | (tr, n', Inl e) \<Rightarrow>
          (call_progress clk
             ((ctx Update (gi_workflowId inp))
                \<lparr> ctx_error := Some (''Failed to generate section '' @ dq @ sectionTitle' @ dq
                                      @ '': '' @ error_message e) \<rparr>)
             (s\<lparr>g_agent_calls := n'\<rparr>),
           Inl e))"

text \<open>The loop \<open>for (const chapter of chapters)\<close>.\<close>

fun chapters_loop ::
  "writing_agent \<Rightarrow> clock \<Rightarrow> generate_input \<Rightarrow> Chapter list \<Rightarrow> chapter_vars \<Rightarrow> run_state
     \<Rightarrow> run_state \<times> (error + chapter_vars)" where
  "chapters_loop agent clk inp [] v s = (s, Inr v)"
| "chapters_loop agent clk inp (chapter # rest) v s =
     (let s1 = call_progress clk
                 ((ctx Update (gi_workflowId inp))
                    \<lparr> ctx_currentStep := Some (''Generating Chapter '' @ string_of_int (ch_number chapter)
                                                @ '': '' @ ch_title chapter),
                       ctx_completedSections := Some (cv_completedSections v) \<rparr>) s;
          targetWordsPerSection = ch_targetWordCount chapter div int (length (ch_sections chapter))
      in (case sections_loop agent clk inp chapter (totalWordCount v) targetWordsPerSection 0
                 (ch_sections chapter)
                 \<lparr> chapterSections = [], chapterWordCount = 0,
                    sv_completedSections = cv_completedSections v \<rparr> s1 of
            (s2, Inl e) \<Rightarrow> (s2, Inl e)
          | (s2, Inr sv) \<Rightarrow>
              (let chapterContent =
                     join [CHR 0x0A, CHR 0x0A]
                       (map (\<lambda>section. ''## '' @ show_opt (sec_title section) @ [CHR 0x0A, CHR 0x0A]
                                         @ sec_content section) (chapterSections sv));
                   v' = \<lparr> generatedChapters = generatedChapters v @
                             [\<lparr> gc_number = ch_number chapter, gc_title = ch_title chapter,
                                 gc_content = chapterContent, gc_wordCount = chapterWordCount sv,
                                 gc_sections = chapterSections sv \<rparr>],
                          totalWordCount = totalWordCount v + chapterWordCount sv,
                          cv_completedSections = sv_completedSections sv \<rparr>;
                   s3 = call_progress clk
                          ((ctx Update (gi_workflowId inp))
                             \<lparr> ctx_completedChapters := Some (int (length (generatedChapters v'))),
                                ctx_totalWordsGenerated := Some (totalWordCount v'),
                                ctx_chapterCompleted := Some \<lparr> cc_chapterNumber = ch_number chapter,
                                   cc_title = ch_title chapter, cc_wordCount = chapterWordCount sv \<rparr> \<rparr>)
                          s2
               in chapters_loop agent clk inp rest v' s3)))"

record review_input =
  ri_workflowId :: string
  ri_topic :: string
  ri_generatedChapters :: "GeneratedChapter list"
  ri_totalWordCount :: int
  ri_allContentGenerated :: bool

definition generateAllContentStep ::
  "writing_agent \<Rightarrow> clock \<Rightarrow> generate_input \<Rightarrow> run_state \<Rightarrow> run_state \<times> (error + review_input)" where
  "generateAllContentStep agent clk inputData s =
     (case chapters_loop agent clk inputData (gi_chapters inputData)
             \<lparr> generatedChapters = [], totalWordCount = 0, cv_completedSections = 0 \<rparr> s of
        (s', Inl e) \<Rightarrow> (s', Inl e)
      | (s', Inr v) \<Rightarrow>
          (s', Inr \<lparr> ri_workflowId = gi_workflowId inputData, ri_topic = gi_topic inputData,
                     ri_generatedChapters = generatedChapters v,
                     ri_totalWordCount = totalWordCount v, ri_allContentGenerated = True \<rparr>))"

subsection \<open>PUBLISH: generateFinalPDFStep\<close>

record FinalChapter =
  fc_title :: string
  fc_content :: string

record publish_input =
  pb_workflowId :: string
  pb_topic :: string
  pb_reviewSummary :: string
  pb_qualityScore :: real
  pb_approvedForPublication :: bool
  pb_finalChapters :: "FinalChapter list"
  pb_finalWordCount :: int

record pdf_context =
  pdf_title :: string
  pdf_subtitle :: string
  pdf_author :: string
  pdf_chapters :: "FinalChapter list"

record pdf_result =
  pdf_path :: string
  pdf_fileSize :: int

record publish_output =
  po_workflowId :: string
  po_topic :: string
  po_bookGenerated :: bool
  po_bookPath :: "string option"
  po_fileSize :: "int option"
  po_finalWordCount :: int
  po_qualityScore :: real
  po_completedAt :: string

text \<open>The rendering tool is external (it writes a file, or throws), and so is the way the
  runtime prints a number in a template literal.\<close>

type_synonym pdf_tool = "pdf_context \<Rightarrow> error + pdf_result"

definition generateFinalPDFStep ::
  "pdf_tool \<Rightarrow> (real \<Rightarrow> string) \<Rightarrow> clock \<Rightarrow> publish_input \<Rightarrow> run_state
     \<Rightarrow> run_state \<times> (error + publish_output)" where
  "generateFinalPDFStep pdf show_number clk inputData s =
     (let wid = pb_workflowId inputData;
          s1 = call_progress clk
                 ((ctx Update wid)\<lparr> ctx_currentStep := Some ''Generating final PDF'' \<rparr>) s
      in if \<not> pb_approvedForPublication inputData then
           (call_progress clk
              ((ctx Fail wid)\<lparr> ctx_error := Some (''Content not approved for publication (quality score: ''
                     @ show_number (pb_qualityScore inputData) @ '')'') \<rparr>) s1,
            Inr \<lparr> po_workflowId = wid, po_topic = pb_topic inputData, po_bookGenerated = False,
                  po_bookPath = None, po_fileSize = None,
                  po_finalWordCount = pb_finalWordCount inputData,
                  po_qualityScore = pb_qualityScore inputData, po_completedAt = nowISO clk \<rparr>)
         else
           (case pdf \<lparr> pdf_title = ''The Complete Guide to '' @ pb_topic inputData,
                       pdf_subtitle = ''A Comprehensive Educational Resource'',
                       pdf_author = ''AI Educational Content System'',
                       pdf_chapters = pb_finalChapters inputData \<rparr> of
              Inr pdfResult \<Rightarrow>
                (call_progress clk (ctx Complete wid) s1,
                 Inr \<lparr> po_workflowId = wid, po_topic = pb_topic inputData, po_bookGenerated = True,
                       po_bookPath = Some (pdf_path pdfResult),
                       po_fileSize = Some (pdf_fileSize pdfResult),
                       po_finalWordCount = pb_finalWordCount inputData,
                       po_qualityScore = pb_qualityScore inputData, po_completedAt = nowISO clk \<rparr>)
            | Inl e \<Rightarrow>
                (call_progress clk
                   ((ctx Fail wid)\<lparr> ctx_error := Some (''PDF generation failed: '' @ error_message e) \<rparr>) s1,
                 Inl e)))"

text \<open>What a monitor reads of a run: the counters of the record of a workflow id in each
  store of a history, and whether they never decrease along it.\<close>

definition counters_le :: "string \<Rightarrow> store \<Rightarrow> store \<Rightarrow> bool" where
  "counters_le wid a b =
     (case (a wid, b wid) of
        (Some p, Some q) \<Rightarrow> completedSections p \<le> completedSections q
                            \<and> completedChapters p \<le> completedChapters q
      | _ \<Rightarrow> False)"

definition never_decrease :: "string \<Rightarrow> store list \<Rightarrow> bool" where
  "never_decrease wid tr = sorted_wrt (counters_le wid) tr"

text \<open>The events after attempt \<open>a\<close> up to attempt \<open>m\<close>: before each further attempt, the
  wait that the failed one computed.\<close>

definition rest_events :: "nat \<Rightarrow> nat \<Rightarrow> event list" where
  "rest_events a m = concat (map (\<lambda>k. [Wait (backoffMs k), Attempt (Suc k)]) [a ..< m])"

text \<open>A configuration for the examples.\<close>

definition config0 :: "int option \<Rightarrow> ChunkGenerationConfig" where
  "config0 r = \<lparr> cfg_topic = ''Topic'', cfg_chapterTitle = ''Basics'', cfg_chapterNumber = 1,
     cfg_sectionTitles = [''Start''], cfg_targetWordsPerSection = 600,
     cfg_context = ''Chapter 1: Basics'', cfg_retryAttempts = r \<rparr>"

text \<open>The chapters of the fallback, written out.\<close>

definition skeleton :: "string list" where
  "skeleton = [''Introduction'', ''Core Concepts'', ''Practical Examples'', ''Advanced Topics'', ''Summary'']"

definition fallback_chapter :: "int \<Rightarrow> string \<Rightarrow> int \<Rightarrow> Chapter" where
  "fallback_chapter i t w = \<lparr> ch_number = i, ch_title = t, ch_sections = skeleton, ch_targetWordCount = w \<rparr>"

subsection \<open>REVIEW: the quality score\<close>

text \<open>The class \<open>[:\s]\<close>.\<close>

definition isColonOrSpace :: "char \<Rightarrow> bool" where
  "isColonOrSpace c = (c = CHR '':'' \<or> isSpace c)"

text \<open>\<open>quality score[:\s]*(\d+(?:\.\d+)?)\<close> under the flag \<open>i\<close>, tried at one position: the
  texts of group 1 of the matches, the match tried first coming first.\<close>

definition score_at :: "string \<Rightarrow> string list" where
  "score_at s =
     List.bind (List.bind (lit_ci ''quality score'' s) (star_splits isColonOrSpace))
       (\<lambda>r0. List.bind (plus_splits isDigit r0)
          (\<lambda>r1. map (\<lambda>r2. take (length r0 - length r2) r0)
                  (List.bind (lit ''.'' r1) (plus_splits isDigit) @ [r1])))"

text \<open>\<open>reviewText.match(...)\<close>: the leftmost position with a match decides.\<close>

fun scoreMatch :: "string \<Rightarrow> string option" where
  "scoreMatch [] = first_match (score_at [])"
| "scoreMatch (c # cs) =
     (case first_match (score_at (c # cs)) of
        Some g \<Rightarrow> Some g
      | None \<Rightarrow> scoreMatch cs)"

text \<open>\<open>parseFloat\<close> of a text of the form \<open>\d+\<close> or \<open>\d+\.\d+\<close>: the double nearest to its
  decimal value.\<close>

definition digits_value :: "string \<Rightarrow> nat" where
  "digits_value ds = foldl (\<lambda>acc c. 10 * acc + (code c - 48)) 0 ds"

definition parseFloat :: "string \<Rightarrow> real" where
  "parseFloat s =
     (let int_part = takeWhile isDigit s;
          rest = dropWhile isDigit s;
          frac_part = (case rest of [] \<Rightarrow> [] | c # r \<Rightarrow> if c = CHR ''.'' then takeWhile isDigit r else [])
      in double_of (real (digits_value int_part)
                      + real (digits_value frac_part) / 10 ^ length frac_part))"

definition qualityScore_of :: "string \<Rightarrow> real" where
  "qualityScore_of reviewText =
     (case scoreMatch reviewText of Some g \<Rightarrow> parseFloat g | None \<Rightarrow> 7.5)"

subsection \<open>REVIEW: reviewContentStep\<close>

text \<open>The review agent is external: what it returns for the run, the text or the exception.
  Its prompt is built from the chapters and read by the agent only.\<close>

definition reviewContentStep ::
  "(error + string) \<Rightarrow> clock \<Rightarrow> review_input \<Rightarrow> run_state \<Rightarrow> run_state \<times> (error + publish_input)" where
  "reviewContentStep review clk inputData s =
     (let s1 = call_progress clk
                 ((ctx Update (ri_workflowId inputData))
                    \<lparr> ctx_currentStep := Some ''Reviewing generated content'' \<rparr>) s
      in (case review of
            Inl e \<Rightarrow> (s1, Inl e)
          | Inr reviewText \<Rightarrow>
              (let qualityScore = qualityScore_of reviewText
               in (s1, Inr \<lparr> pb_workflowId = ri_workflowId inputData, pb_topic = ri_topic inputData,
                     pb_reviewSummary = reviewText, pb_qualityScore = qualityScore,
                     pb_approvedForPublication = approvedForPublication qualityScore reviewText,
                     pb_finalChapters = map (\<lambda>chapter. \<lparr> fc_title = gc_title chapter,
                                                 fc_content = gc_content chapter \<rparr>)
                                          (ri_generatedChapters inputData),
                     pb_finalWordCount = ri_totalWordCount inputData \<rparr>))))"

subsection \<open>The workflow: PLAN, then GENERATE, then REVIEW, then PUBLISH\<close>

text \<open>Everything outside the engine that a run meets. A step that throws ends the run.\<close>

record externals =
  x_clock :: clock
  x_workflowId :: string
  x_outline :: "error + string"
  x_writing :: writing_agent
  x_review :: "error + string"
  x_pdf :: pdf_tool
  x_show_number :: "real \<Rightarrow> string"

definition run_workflow ::
  "externals \<Rightarrow> plan_input \<Rightarrow> store \<Rightarrow> run_state \<times> (error + publish_output)" where
  "run_workflow ext inputData st =
     (case x_outline ext of
        Inl e \<Rightarrow> (start_state st, Inl e)
      | Inr outlineText \<Rightarrow>
          (let (s1, gi) = initializeAndPlanStep (x_clock ext) (x_workflowId ext) outlineText
                            inputData (start_state st)
           in (case generateAllContentStep (x_writing ext) (x_clock ext) gi s1 of
                 (s2, Inl e) \<Rightarrow> (s2, Inl e)
               | (s2, Inr ri) \<Rightarrow>
                   (case reviewContentStep (x_review ext) (x_clock ext) ri s2 of
                      (s3, Inl e) \<Rightarrow> (s3, Inl e)
                    | (s3, Inr pb) \<Rightarrow>
                        generateFinalPDFStep (x_pdf ext) (x_show_number ext) (x_clock ext) pb s3))))"

text \<open>The invariant of the GENERATE loops for the record of a workflow id: the history is
  not empty and ends with the present store, the counters never decrease along it, and
  the stored counters are at most \<open>a\<close> (sections) and \<open>b\<close> (chapters).\<close>

definition run_inv :: "string \<Rightarrow> run_state \<Rightarrow> int \<Rightarrow> int \<Rightarrow> bool" where
  "run_inv wid s a b =
     (g_trail s \<noteq> [] \<and> last (g_trail s) = g_store s \<and> never_decrease wid (g_trail s)
      \<and> (case g_store s wid of
            Some p \<Rightarrow> completedSections p \<le> a \<and> completedChapters p \<le> b
          | None \<Rightarrow> False))"

text \<open>A run for the examples: an outline of one chapter with one section, and a writing
  agent that fails on every call.\<close>

definition outline0 :: string where
  "outline0 = ''Chapter 1: Basics'' @ [CHR 0x0A] @ ''- Section 1.1: Start''"

definition plan0 :: plan_input where
  "plan0 = \<lparr> pi_topic = ''Topic'', pi_targetAudience = ''Beginners'', pi_targetWordCount = 8000 \<rparr>"

definition failing_agent :: writing_agent where
  "failing_agent = (\<lambda>n. Inl (Error ''model unavailable''))"

text \<open>The world of a run for the examples: every agent and the rendering succeed.\<close>

definition ext0 :: externals where
  "ext0 = \<lparr> x_clock = clock0, x_workflowId = ''edu-1'', x_outline = Inr outline0,
     x_writing = (\<lambda>n. Inr ''Some words here''),
     x_review = Inr ''Quality score: 8. Approved.'',
     x_pdf = (\<lambda>c. Inr \<lparr> pdf_path = ''generated_books/book.html'', pdf_fileSize = 1000 \<rparr>),
     x_show_number = (\<lambda>r. ''8'') \<rparr>"


section \<open>Properties of the Progress Store\<close>

lemma status_apply_update: "status (apply_update clk c p) = status p"
  by (simp add: apply_update_def Let_def split: option.splits)


subsection \<open>Rounding to a double\<close>












subsection \<open>The progress percentage\<close>




















text \<open>
  C3, as the claim states it, fails: \<open>complete\<close> and \<open>fail\<close> write the status whatever it
  was. A run that was marked failed is marked completed by a later \<open>complete\<close>.
\<close>

theorem C3_complete_leaves_terminal_state:
  "status_of (run_calls clock0 [init_ctx ''run-1'' ''Topic'' 8 40 60000,
       (ctx Fail ''run-1'')\<lparr>ctx_error := Some ''boom''\<rparr>] Map.empty) ''run-1'' = Some failed
   \<and> status_of (run_calls clock0 [init_ctx ''run-1'' ''Topic'' 8 40 60000,
       (ctx Fail ''run-1'')\<lparr>ctx_error := Some ''boom''\<rparr>,
       ctx Complete ''run-1''] Map.empty) ''run-1'' = Some completed"
  by (simp add: run_calls_def exec_store_def execute_def execute_body_def status_of_def
      loadProgress_def saveProgress_def apply_complete_def apply_fail_def Let_def init_ctx_def
      ctx_def clock0_def)

text \<open>
  C3, amended: an \<open>update\<close> never changes the status of any record, whatever the status is
  (so not after it became completed or failed either); \<open>complete\<close> sets the status of an
  existing record to completed and \<open>fail\<close> sets it to failed, whatever it was before, and
  they leave every other record as it is.
\<close>

theorem C3_status_after_operation:
  "(ctx_action c = Update \<longrightarrow> status_of (exec_store clk c st) w = status_of st w)
   \<and> (ctx_action c = Complete \<longrightarrow> status_of (exec_store clk c st) w =
        (if w = ctx_workflowId c \<and> st w \<noteq> None then Some completed else status_of st w))
   \<and> (ctx_action c = Fail \<longrightarrow> status_of (exec_store clk c st) w =
        (if w = ctx_workflowId c \<and> st w \<noteq> None then Some failed else status_of st w))"
  by (auto simp: exec_store_def execute_def execute_body_def status_of_def loadProgress_def
      saveProgress_def status_apply_update apply_complete_def apply_fail_def Let_def
      split: option.splits sum.splits)

theorem C3_status_after_operation_witness:
  "status_of (exec_store clock0 ((ctx Update ''run-1'')\<lparr>ctx_completedSections := Some 3\<rparr>)
       (run_calls clock0 [init_ctx ''run-1'' ''Topic'' 8 40 60000, ctx Complete ''run-1''] Map.empty))
     ''run-1'' = Some completed
   \<and> status_of (exec_store clock0 (ctx Complete ''run-1'')
       (run_calls clock0 [init_ctx ''run-1'' ''Topic'' 8 40 60000] Map.empty)) ''run-1''
     = Some completed
   \<and> status_of (exec_store clock0 (ctx Fail ''run-1'')
       (run_calls clock0 [init_ctx ''run-1'' ''Topic'' 8 40 60000] Map.empty)) ''run-1''
     = Some failed"
proof -
  let ?s1 = "run_calls clock0 [init_ctx ''run-1'' ''Topic'' 8 40 60000] Map.empty"
  let ?s2 = "run_calls clock0 [init_ctx ''run-1'' ''Topic'' 8 40 60000, ctx Complete ''run-1''] Map.empty"
  have s1: "?s1 ''run-1'' \<noteq> None"
    by (simp add: run_calls_def exec_store_def execute_def execute_body_def loadProgress_def
        saveProgress_def Let_def init_ctx_def ctx_def)
  have s2: "status_of ?s2 ''run-1'' = Some completed"
    by (simp add: run_calls_def exec_store_def execute_def execute_body_def status_of_def
        loadProgress_def saveProgress_def apply_complete_def Let_def init_ctx_def ctx_def)
  have u: "ctx_action ((ctx Update ''run-1'')\<lparr>ctx_completedSections := Some 3\<rparr>) = Update"
    and cw: "ctx_workflowId (ctx Complete ''run-1'') = ''run-1''"
    and ca: "ctx_action (ctx Complete ''run-1'') = Complete"
    and fw: "ctx_workflowId (ctx Fail ''run-1'') = ''run-1''"
    and fa: "ctx_action (ctx Fail ''run-1'') = Fail"
    by (simp_all add: ctx_def)
  show ?thesis
    using C3_status_after_operation
            [of "(ctx Update ''run-1'')\<lparr>ctx_completedSections := Some 3\<rparr>" clock0 ?s2 "''run-1''"]
          C3_status_after_operation [of "ctx Complete ''run-1''" clock0 ?s1 "''run-1''"]
          C3_status_after_operation [of "ctx Fail ''run-1''" clock0 ?s1 "''run-1''"]
          s1 s2 u cw ca fw fa
    by simp
qed

text \<open>
  C4, as the claim states it, fails: no exception leaves the tool. An \<open>update\<close> for a run
  without a record returns normally, with \<open>success: false\<close> and a message.
\<close>

theorem C4_missing_record_returns_normally:
  "execute clock0 (ctx Update ''run-1'') Map.empty =
     Inr (Map.empty, \<lparr> success = False, progress = None,
        message = Some ''Progress tracking failed: No progress found for workflow run-1'' \<rparr>)"
  by (simp add: execute_def execute_body_def loadProgress_def ctx_def)

text \<open>
  C4, amended: for a workflow id without a record, each of \<open>update\<close>, \<open>complete\<close> and \<open>fail\<close>
  throws "No progress found for workflow <id>" inside the tool; the tool catches it and
  returns normally a result with \<open>success = false\<close>, no progress view and the message
  "Progress tracking failed: No progress found for workflow <id>", the store unchanged.
\<close>

theorem C4_missing_record_is_reported_in_result:
  assumes "st wid = None" and "ctx_workflowId c = wid"
    and "ctx_action c \<in> {Update, Complete, Fail}"
  shows "execute_body clk c st = Inl (Error (''No progress found for workflow '' @ wid))
     \<and> execute clk c st = Inr (st, \<lparr> success = False, progress = None,
         message = Some (''Progress tracking failed: No progress found for workflow '' @ wid) \<rparr>)"
  using assms by (auto simp: execute_def execute_body_def loadProgress_def)

theorem C4_missing_record_is_reported_in_result_witness:
  "execute_body clock0 (ctx Fail ''run-2'') Map.empty
     = Inl (Error ''No progress found for workflow run-2'')
   \<and> execute clock0 (ctx Fail ''run-2'') Map.empty
     = Inr (Map.empty, \<lparr> success = False, progress = None,
         message = Some ''Progress tracking failed: No progress found for workflow run-2'' \<rparr>)"
proof -
  have a: "(Map.empty :: store) ''run-2'' = None" by simp
  have b: "ctx_workflowId (ctx Fail ''run-2'') = ''run-2''" by (simp add: ctx_def)
  have c: "ctx_action (ctx Fail ''run-2'') \<in> {Update, Complete, Fail}" by (simp add: ctx_def)
  show ?thesis
    using C4_missing_record_is_reported_in_result
            [where st = Map.empty and wid = "''run-2''" and c = "ctx Fail ''run-2''"
               and clk = clock0] a b c
    by simp
qed




section \<open>Properties of the word count\<close>

lemma tokens_from_skip: "tokens_from [] (dropWhile isSpace cs) = tokens_from [] cs"
  by (induction cs) auto

lemma dropWhile_last: "dropWhile P cs \<noteq> [] \<Longrightarrow> last (dropWhile P cs) = last cs"
  by (induction cs) (auto split: if_splits)

lemma dropWhile_all: "dropWhile P cs = [] \<Longrightarrow> cs \<noteq> [] \<Longrightarrow> P (last cs)"
  by (induction cs) (auto split: if_splits)

lemma dropWhile_hd: "dropWhile P cs \<noteq> [] \<Longrightarrow> \<not> P (hd (dropWhile P cs))"
  using hd_dropWhile by blast

lemma split_ws_from_length:
  "length (split_ws_from cur s) =
     length (tokens_from cur s)
     + (if cur = [] \<and> (s = [] \<or> isSpace (hd s)) then 1 else 0)
     + (if s \<noteq> [] \<and> isSpace (last s) then 1 else 0)"
proof (induction cur s rule: split_ws_from.induct)
  case (1 cur)
  show ?case by simp
next
  case (2 cur c cs)
  show ?case
  proof (cases "isSpace c")
    case True
    let ?d = "dropWhile isSpace cs"
    have ih: "length (split_ws_from [] ?d) =
        length (tokens_from [] cs) + (if ?d = [] then 1 else 0)
        + (if ?d \<noteq> [] \<and> isSpace (last ?d) then 1 else 0)"
      using 2(1)[OF True] dropWhile_hd[of isSpace cs] by (auto simp: tokens_from_skip)
    have e: "(if ?d = [] then 1 else 0) + (if ?d \<noteq> [] \<and> isSpace (last ?d) then 1 else 0)
        = (if isSpace (last (c # cs)) then 1 else (0::nat))"
      using True dropWhile_last[of isSpace cs] dropWhile_all[of isSpace cs]
      by (cases "?d = []") auto
    show ?thesis using True ih e by auto
  next
    case False
    then show ?thesis using 2(2)[OF False] by auto
  qed
qed

text \<open>
  C8, as the claim states it, fails: \<open>split\<close> gives one piece for the empty text, so its
  word count is 1, while it has no token.
\<close>

theorem C8_empty_text_counts_one: "countWords '''' = 1 \<and> length (tokens '''') = 0"
  by (simp add: countWords_def split_whitespace_def tokens_def)

text \<open>
  C8, amended: the word count of a text is the number of its whitespace-delimited tokens,
  plus one when the text is empty or begins with whitespace, plus one when the text ends
  with whitespace; so the empty text has word count 1, and a text that is not empty and
  neither begins nor ends with whitespace has exactly the number of its tokens.
\<close>

theorem C8_word_count_and_tokens:
  "countWords text =
     int (length (tokens text))
       + (if text = [] \<or> isSpace (hd text) then 1 else 0)
       + (if text \<noteq> [] \<and> isSpace (last text) then 1 else 0)"
  unfolding countWords_def split_whitespace_def tokens_def
  by (simp add: split_ws_from_length)

theorem C8_word_count_and_tokens_witness:
  "countWords '' two words '' = 4 \<and> length (tokens '' two words '') = 2"
  using C8_word_count_and_tokens [of "'' two words ''"]
  by (simp add: tokens_def isSpace_def code_def)

section \<open>Properties of the Content Generation Adapter\<close>

lemma rest_events_empty: "rest_events a a = []"
  by (simp add: rest_events_def)

lemma rest_events_step: "a < m \<Longrightarrow> rest_events a m = Wait (backoffMs a) # Attempt (Suc a) # rest_events (Suc a) m"
  by (simp add: rest_events_def upt_conv_Cons)

lemma spec_events_rest: "1 \<le> m \<Longrightarrow> spec_events m = Attempt 1 # rest_events 1 m"
proof -
  assume m: "1 \<le> m"
  let ?F = "\<lambda>k. if k = 1 then [Attempt 1]
          else [Wait (min (1000 * 2 ^ (k - 2)) 30000), Attempt k]"
  let ?G = "\<lambda>k. [Wait (backoffMs k), Attempt (Suc k)]"
  have a: "[1 ..< Suc m] = 1 # map Suc [1 ..< m]"
    using m by (simp add: upt_conv_Cons map_Suc_upt)
  have c: "map (?F \<circ> Suc) [1 ..< m] = map ?G [1 ..< m]"
    by (rule map_cong [OF refl]) (simp add: backoffMs_def)
  have "spec_events m = concat (map ?F (1 # map Suc [1 ..< m]))"
    by (simp only: spec_events_def a)
  also have "\<dots> = Attempt 1 # concat (map (?F \<circ> Suc) [1 ..< m])"
    by (simp only: list.map map_map concat.simps refl if_True append_Cons append_Nil)
  also have "\<dots> = Attempt 1 # rest_events 1 m"
    by (simp only: c rest_events_def)
  finally show ?thesis .
qed

lemma chunk_loop_events:
  "int a \<le> r \<Longrightarrow>
     \<exists>m. a \<le> m \<and> int m \<le> r
        \<and> fst (chunk_loop agent t i r a n) = Attempt a # rest_events a m
        \<and> fst (snd (chunk_loop agent t i r a n)) = n + (Suc m - a)"
proof (induction agent t i r a n rule: chunk_loop.induct)
  case (1 agent title idx maxRetries attempt n)
  show ?case
  proof (cases "agent n")
    case (Inr response)
    then show ?thesis using 1(2)
      by (intro exI[of _ attempt]) (simp add: chunk_loop.simps[of agent title idx maxRetries attempt n] rest_events_empty)
  next
    case (Inl e)
    show ?thesis
    proof (cases "int attempt = maxRetries")
      case True
      then show ?thesis using Inl 1(2)
        by (intro exI[of _ attempt]) (simp add: chunk_loop.simps[of agent title idx maxRetries attempt n] rest_events_empty)
    next
      case False
      then have lt: "int (Suc attempt) \<le> maxRetries" using 1(2) by simp
      from 1(1)[OF 1(2) Inl False lt] obtain m where
        m: "Suc attempt \<le> m" "int m \<le> maxRetries"
          "fst (chunk_loop agent title idx maxRetries (Suc attempt) (Suc n)) = Attempt (Suc attempt) # rest_events (Suc attempt) m"
          "fst (snd (chunk_loop agent title idx maxRetries (Suc attempt) (Suc n))) = Suc n + (Suc m - Suc attempt)"
        by blast
      have "attempt < m" using m(1) by simp
      then have r: "rest_events attempt m = Wait (backoffMs attempt) # Attempt (Suc attempt) # rest_events (Suc attempt) m"
        by (rule rest_events_step)
      show ?thesis using m Inl False 1(2) r
        by (intro exI[of _ m])
           (simp add: chunk_loop.simps[of agent title idx maxRetries attempt n] split_beta)
    qed
  qed
qed

lemma chunk_loop_none: "\<not> int a \<le> r \<Longrightarrow> chunk_loop agent t i r a n = ([], n, Inl (Error (''Failed to generate content for section '' @ dq @ show_opt t @ dq)))"
  by (simp add: chunk_loop.simps[of agent t i r a n])

text \<open>
  C7: whatever the agent does and whatever the retry limit is, the events of a call are
  those of the specification for some number \<open>m\<close> of attempts within the limit: attempt 1
  first, with no wait before it, and before each later attempt \<open>k\<close> a wait of
  min(1000 * 2^(k-2), 30000) milliseconds; the agent has then been called \<open>m\<close> more times.
\<close>

theorem C7_backoff_schedule:
  "\<exists>m. int m \<le> max 0 (maxRetries_of config)
      \<and> fst (generateContentChunk agent config sectionIndex n) = spec_events m
      \<and> fst (snd (generateContentChunk agent config sectionIndex n)) = n + m"
proof (cases "1 \<le> maxRetries_of config")
  case True
  then have "int 1 \<le> maxRetries_of config" by simp
  from chunk_loop_events [OF this, of agent "array_get (cfg_sectionTitles config) sectionIndex"
      sectionIndex n]
  obtain m where m: "1 \<le> m" "int m \<le> maxRetries_of config"
     "fst (generateContentChunk agent config sectionIndex n) = Attempt 1 # rest_events 1 m"
     "fst (snd (generateContentChunk agent config sectionIndex n)) = n + (Suc m - 1)"
    unfolding generateContentChunk_def by auto
  then show ?thesis using spec_events_rest [OF m(1)]
    by (intro exI [of _ m]) simp
next
  case False
  then have "\<not> int 1 \<le> maxRetries_of config" by simp
  from chunk_loop_none [OF this] show ?thesis
    by (intro exI [of _ 0]) (simp add: generateContentChunk_def spec_events_def)
qed

theorem C7_backoff_schedule_witness:
  "fst (generateContentChunk (\<lambda>n. Inl (Error ''timeout'')) (config0 (Some 4)) 0 0)
     = [Attempt 1, Wait 1000, Attempt 2, Wait 2000, Attempt 3, Wait 4000, Attempt 4]"
proof -
  let ?g = "generateContentChunk (\<lambda>n. Inl (Error ''timeout'')) (config0 (Some 4)) 0 0"
  obtain m where m: "fst ?g = spec_events m" "fst (snd ?g) = 0 + m"
    using C7_backoff_schedule [of "config0 (Some 4)" "\<lambda>n. Inl (Error ''timeout'')" 0 0] by blast
  have "fst (snd ?g) = 4"
    by (simp add: generateContentChunk_def maxRetries_of_def chunk_loop.simps config0_def)
  then have "m = 4" using m(2) by simp
  moreover have "spec_events 4
      = [Attempt 1, Wait 1000, Attempt 2, Wait 2000, Attempt 3, Wait 4000, Attempt 4]"
    by code_simp
  ultimately show ?thesis using m(1) by simp
qed

text \<open>
  C10: when \<open>retryAttempts\<close> is absent or 0, the retry limit is 3. At least one attempt is
  made: the adapter stops at the first attempt that succeeds and makes three attempts when
  the first two fail; when all three fail it throws.
\<close>

theorem C10_falsy_retry_limit_is_three:
  assumes "cfg_retryAttempts config = None \<or> cfg_retryAttempts config = Some 0"
  shows "maxRetries_of config = 3
     \<and> attempts (fst (generateContentChunk agent config sectionIndex n)) =
         (if \<not> isl (agent n) then 1 else if \<not> isl (agent (Suc n)) then 2 else 3)
     \<and> (isl (agent n) \<and> isl (agent (Suc n)) \<and> isl (agent (Suc (Suc n)))
          \<longrightarrow> isl (snd (snd (generateContentChunk agent config sectionIndex n))))"
proof -
  have m: "maxRetries_of config = 3" using assms by (auto simp: maxRetries_of_def)
  show ?thesis
    unfolding generateContentChunk_def m
    by (cases "agent n"; cases "agent (Suc n)"; cases "agent (Suc (Suc n))")
       (simp_all add: chunk_loop.simps [of _ _ _ 3] attempts_def)
qed

theorem C10_falsy_retry_limit_is_three_witness:
  "maxRetries_of (config0 (Some 0)) = 3
   \<and> attempts (fst (generateContentChunk (\<lambda>n. Inl (Error ''timeout'')) (config0 (Some 0)) 0 0)) = 3
   \<and> isl (snd (snd (generateContentChunk (\<lambda>n. Inl (Error ''timeout'')) (config0 (Some 0)) 0 0)))"
proof -
  have a: "cfg_retryAttempts (config0 (Some 0)) = None \<or> cfg_retryAttempts (config0 (Some 0)) = Some 0"
    by (simp add: config0_def)
  show ?thesis
    using C10_falsy_retry_limit_is_three [OF a, of "\<lambda>n. Inl (Error ''timeout'')" 0 0] by simp
qed

text \<open>Outside the scope of C10: a negative \<open>retryAttempts\<close> is truthy and is kept as the
  limit, so the loop body never runs and the adapter throws without calling the agent.\<close>

lemma negative_retry_limit_makes_no_attempt:
  assumes "cfg_retryAttempts config = Some r" and "r < 0"
  shows "fst (generateContentChunk agent config sectionIndex n) = []
     \<and> fst (snd (generateContentChunk agent config sectionIndex n)) = n
     \<and> isl (snd (snd (generateContentChunk agent config sectionIndex n)))"
proof -
  have "maxRetries_of config = r" using assms by (simp add: maxRetries_of_def)
  then have "\<not> int 1 \<le> maxRetries_of config" using assms(2) by simp
  from chunk_loop_none [OF this] show ?thesis by (simp add: generateContentChunk_def)
qed

section \<open>Properties of the Publication Gate\<close>

lemma includes_str_iff: "includes_str s p \<longleftrightarrow> (\<exists>before after. s = before @ p @ after)"
proof (induction s)
  case Nil
  show ?case by auto
next
  case (Cons c cs)
  have "(\<exists>before after. c # cs = before @ p @ after)
      \<longleftrightarrow> prefix p (c # cs) \<or> (\<exists>before after. cs = before @ p @ after)"
  proof
    assume "\<exists>before after. c # cs = before @ p @ after"
    then obtain b a where e: "c # cs = b @ p @ a" by blast
    show "prefix p (c # cs) \<or> (\<exists>before after. cs = before @ p @ after)"
    proof (cases b)
      case Nil
      then show ?thesis using e by (auto simp: prefix_def)
    next
      case (Cons x xs)
      then have "cs = xs @ p @ a" using e by simp
      then show ?thesis by blast
    qed
  next
    assume "prefix p (c # cs) \<or> (\<exists>before after. cs = before @ p @ after)"
    then show "\<exists>before after. c # cs = before @ p @ after"
    proof
      assume "prefix p (c # cs)"
      then obtain a where "c # cs = p @ a" by (auto simp: prefix_def)
      then have "c # cs = [] @ p @ a" by simp
      then show ?thesis by blast
    next
      assume "\<exists>before after. cs = before @ p @ after"
      then obtain b a where "cs = b @ p @ a" by blast
      then have "c # cs = (c # b) @ p @ a" by simp
      then show ?thesis by blast
    qed
  qed
  then show ?case using Cons by simp
qed

lemma same_letter_map: "list_all2 same_letter m p \<longleftrightarrow> map lowerChar m = map lowerChar p"
  unfolding same_letter_def
  by (induction m arbitrary: p) (auto simp: list_all2_Cons1 Cons_eq_map_conv)

lemma map_eq_middle:
  "(\<exists>b a. map f t = b @ p @ a) \<longleftrightarrow> (\<exists>b m a. t = b @ m @ a \<and> map f m = p)"
proof
  assume "\<exists>b a. map f t = b @ p @ a"
  then obtain b a where h: "map f t = b @ (p @ a)" by auto
  obtain us vs where u: "t = us @ vs" "map f vs = p @ a"
    using map_eq_append_conv [THEN iffD1, OF h] by metis
  obtain m ws where "vs = m @ ws" "map f m = p"
    using map_eq_append_conv [THEN iffD1, OF u(2)] by metis
  with u(1) show "\<exists>b m a. t = b @ m @ a \<and> map f m = p" by blast
next
  assume "\<exists>b m a. t = b @ m @ a \<and> map f m = p"
  then obtain b m a where "t = b @ m @ a" "map f m = p" by blast
  then have "map f t = map f b @ p @ map f a" by simp
  then show "\<exists>b a. map f t = b @ p @ a" by blast
qed

lemma includes_lower_iff:
  assumes "map lowerChar p = p"
  shows "includes_str (toLowerCase t) p \<longleftrightarrow> contains_ci t p"
proof -
  have "includes_str (toLowerCase t) p \<longleftrightarrow> (\<exists>b a. map lowerChar t = b @ p @ a)"
    by (simp add: includes_str_iff toLowerCase_def)
  also have "\<dots> \<longleftrightarrow> (\<exists>b m a. t = b @ m @ a \<and> map lowerChar m = p)"
    by (rule map_eq_middle)
  also have "\<dots> \<longleftrightarrow> contains_ci t p"
    unfolding contains_ci_def same_letter_map using assms by simp
  finally show ?thesis .
qed

lemma lower_not_approved: "map lowerChar ''not approved'' = ''not approved''"
  by code_simp

lemma lower_needs_major_revision:
  "map lowerChar ''needs major revision'' = ''needs major revision''"
  by code_simp

lemma ci_example: "contains_ci ''Verdict: Needs MAJOR revision.'' ''needs major revision''"
proof -
  have "''Verdict: Needs MAJOR revision.'' = ''Verdict: '' @ ''Needs MAJOR revision'' @ ''.''" by simp
  moreover have "list_all2 same_letter ''Needs MAJOR revision'' ''needs major revision''"
    by code_simp
  ultimately show ?thesis unfolding contains_ci_def by blast
qed

text \<open>
  C2: the decision is: approved exactly when the score is at least 7.0 and the review text
  contains neither "not approved" nor "needs major revision", the case of the letters being
  ignored; a text that contains "needs major revision" is rejected with score 9.
\<close>

theorem C2_publication_decision:
  "approvedForPublication qualityScore reviewText =
     (qualityScore \<ge> 7.0 \<and> \<not> contains_ci reviewText ''not approved''
        \<and> \<not> contains_ci reviewText ''needs major revision'')
   \<and> (contains_ci reviewText ''needs major revision''
        \<longrightarrow> \<not> approvedForPublication 9 reviewText)"
  unfolding approvedForPublication_def
    includes_lower_iff [OF lower_not_approved] includes_lower_iff [OF lower_needs_major_revision]
  by simp

theorem C2_publication_decision_witness:
  "\<not> approvedForPublication 9 ''Verdict: Needs MAJOR revision.''
   \<and> approvedForPublication 7 ''Quality score: 7. Approved.''"
proof -
  have a: "\<not> contains_ci ''Quality score: 7. Approved.'' ''not approved''"
    unfolding includes_lower_iff [OF lower_not_approved, symmetric] by code_simp
  have b: "\<not> contains_ci ''Quality score: 7. Approved.'' ''needs major revision''"
    unfolding includes_lower_iff [OF lower_needs_major_revision, symmetric] by code_simp
  show ?thesis
    using C2_publication_decision [of 9 "''Verdict: Needs MAJOR revision.''"]
      C2_publication_decision [of 7 "''Quality score: 7. Approved.''"] ci_example a b
    by simp
qed

section \<open>Properties of the Outline Parser\<close>

lemma parse_line_no_header:
  assumes "\<not> is_chapter_header (trim line)" and "currentChapter ps = None"
  shows "parse_line w line ps = ps"
  using assms by (simp add: parse_line_def Let_def split: option.splits)

lemma parse_lines_no_header:
  assumes "\<forall>line \<in> set ls. \<not> is_chapter_header (trim line)" and "currentChapter ps = None"
  shows "parse_lines w ls ps = ps"
  using assms unfolding parse_lines_def
  by (induction ls) (simp_all add: parse_line_no_header)

lemma upto_1_8: "[1 .. 8] = [1, 2, 3, 4, 5, 6, 7, (8::int)]"
  by code_simp

lemma chapter_titles:
  "string_of_int 1 = ''1''" "string_of_int 2 = ''2''" "string_of_int 3 = ''3''"
  "string_of_int 4 = ''4''" "string_of_int 5 = ''5''" "string_of_int 6 = ''6''"
  "string_of_int 7 = ''7''" "string_of_int 8 = ''8''"
  by code_simp+

lemma default_chapters:
  "map (default_chapter w) [1 .. 8] =
     [fallback_chapter 1 ''Chapter 1'' w, fallback_chapter 2 ''Chapter 2'' w,
      fallback_chapter 3 ''Chapter 3'' w, fallback_chapter 4 ''Chapter 4'' w,
      fallback_chapter 5 ''Chapter 5'' w, fallback_chapter 6 ''Chapter 6'' w,
      fallback_chapter 7 ''Chapter 7'' w, fallback_chapter 8 ''Chapter 8'' w]"
  unfolding upto_1_8 by (simp add: default_chapter_def fallback_chapter_def skeleton_def chapter_titles)

text \<open>
  C6: when no line of the text is a chapter header (the empty text has one line, the empty
  one), the parser returns the eight chapters of the fallback: numbers 1 to 8, titles
  "Chapter 1" to "Chapter 8", each with the five sections of the skeleton and with
  \<open>targetWordCount = floor(requestedTotalWordCount / 10)\<close>.
\<close>

theorem C6_fallback_skeleton:
  assumes "\<forall>line \<in> set (split_lines outlineText). \<not> is_chapter_header (trim line)"
  shows "parseOutlineIntoChapters outlineText requestedTotalWordCount =
     [fallback_chapter 1 ''Chapter 1'' (requestedTotalWordCount div 10),
      fallback_chapter 2 ''Chapter 2'' (requestedTotalWordCount div 10),
      fallback_chapter 3 ''Chapter 3'' (requestedTotalWordCount div 10),
      fallback_chapter 4 ''Chapter 4'' (requestedTotalWordCount div 10),
      fallback_chapter 5 ''Chapter 5'' (requestedTotalWordCount div 10),
      fallback_chapter 6 ''Chapter 6'' (requestedTotalWordCount div 10),
      fallback_chapter 7 ''Chapter 7'' (requestedTotalWordCount div 10),
      fallback_chapter 8 ''Chapter 8'' (requestedTotalWordCount div 10)]"
proof -
  let ?ps0 = "\<lparr> chapters = [], currentChapter = None, chapterNumber = 1 \<rparr>"
  have "parse_lines (requestedTotalWordCount div 10) (split_lines outlineText) ?ps0 = ?ps0"
    using assms by (intro parse_lines_no_header) simp_all
  then show ?thesis
    unfolding parseOutlineIntoChapters_def Let_def by (simp add: default_chapters)
qed

lemma no_header_empty: "\<forall>line \<in> set (split_lines ''''). \<not> is_chapter_header (trim line)"
  by code_simp

lemma lines_example: "split_lines (''Overview of 3 topics'' @ [CHR 0x0A] @ ''- First point'') = [''Overview of 3 topics'', ''- First point'']"
  by code_simp

lemma no_header_example: "\<not> is_chapter_header (trim ''Overview of 3 topics'')" "\<not> is_chapter_header (trim ''- First point'')"
  by code_simp+

theorem C6_fallback_skeleton_witness:
  "map ch_title (parseOutlineIntoChapters '''' 60005) =
     [''Chapter 1'', ''Chapter 2'', ''Chapter 3'', ''Chapter 4'', ''Chapter 5'', ''Chapter 6'', ''Chapter 7'', ''Chapter 8'']
   \<and> map ch_targetWordCount (parseOutlineIntoChapters (''Overview of 3 topics'' @ [CHR 0x0A] @ ''- First point'') 60005) = [6000, 6000, 6000, 6000, 6000, 6000, 6000, 6000]"
proof -
  have b: "\<forall>line \<in> set (split_lines (''Overview of 3 topics'' @ [CHR 0x0A] @ ''- First point'')). \<not> is_chapter_header (trim line)"
    unfolding lines_example using no_header_example by simp
  show ?thesis
    using C6_fallback_skeleton [OF no_header_empty, of 60005] C6_fallback_skeleton [OF b, of 60005]
    by (simp add: fallback_chapter_def)
qed

section \<open>Properties of the pipeline stages\<close>

lemma counters_le_trans: "counters_le wid x y \<Longrightarrow> counters_le wid y z \<Longrightarrow> counters_le wid x z"
  by (auto simp: counters_le_def split: option.splits)

lemma sorted_wrt_snoc_last:
  assumes "sorted_wrt R xs" and "xs \<noteq> []" and "R (last xs) y"
    and tr: "\<And>a b c. R a b \<Longrightarrow> R b c \<Longrightarrow> R a c"
  shows "sorted_wrt R (xs @ [y])"
proof -
  have xs: "xs = butlast xs @ [last xs]" using assms(2) by simp
  have "sorted_wrt R (butlast xs @ [last xs])" using assms(1) xs by simp
  then have b: "\<forall>x \<in> set (butlast xs). R x (last xs)"
    by (simp add: sorted_wrt_append)
  have "\<forall>x \<in> set xs. R x y"
  proof
    fix x assume "x \<in> set xs"
    then have "x \<in> set (butlast xs) \<or> x = last xs"
      using xs by (metis Un_iff insert_iff list.simps(15) set_append empty_set empty_iff)
    then show "R x y" using b assms(3) tr by blast
  qed
  then show ?thesis using assms(1) by (simp add: sorted_wrt_append)
qed

lemma update_counters:
  "completedSections (apply_update clk c p) =
      (case ctx_completedSections c of Some n \<Rightarrow> n | None \<Rightarrow> completedSections p)"
  "completedChapters (apply_update clk c p) =
      (case ctx_completedChapters c of Some n \<Rightarrow> n | None \<Rightarrow> completedChapters p)"
  by (simp_all add: apply_update_def Let_def split: option.splits)

lemma exec_store_update:
  assumes "ctx_action c = Update" and "st (ctx_workflowId c) = Some p"
  shows "exec_store clk c st = st(ctx_workflowId c \<mapsto> apply_update clk c p)"
  using assms
  by (simp add: exec_store_def execute_def execute_body_def loadProgress_def saveProgress_def Let_def)

lemma run_inv_update:
  assumes inv: "run_inv wid s a b"
    and act: "ctx_action c = Update" and w: "ctx_workflowId c = wid"
    and sec: "case ctx_completedSections c of Some n \<Rightarrow> a \<le> n | None \<Rightarrow> True"
    and chp: "case ctx_completedChapters c of Some n \<Rightarrow> b \<le> n | None \<Rightarrow> True"
  shows "run_inv wid (call_progress clk c s)
           (case ctx_completedSections c of Some n \<Rightarrow> n | None \<Rightarrow> a)
           (case ctx_completedChapters c of Some n \<Rightarrow> n | None \<Rightarrow> b)"
proof -
  from inv obtain p where p: "g_store s wid = Some p" "completedSections p \<le> a" "completedChapters p \<le> b"
    by (auto simp: run_inv_def split: option.splits)
  let ?st' = "(g_store s)(wid \<mapsto> apply_update clk c p)"
  have st': "exec_store clk c (g_store s) = ?st'"
    using exec_store_update[OF act, of "g_store s" p clk] p(1) w by simp
  have le: "counters_le wid (last (g_trail s)) ?st'"
    using inv p sec chp
    by (auto simp: run_inv_def counters_le_def update_counters split: option.splits)
  have nd: "never_decrease wid (g_trail s @ [?st'])"
    unfolding never_decrease_def
    using inv le counters_le_trans[of wid]
    by (intro sorted_wrt_snoc_last) (auto simp: run_inv_def never_decrease_def)
  show ?thesis
    using nd p sec chp
    by (auto simp: run_inv_def call_progress_def st' Let_def update_counters split: option.splits)
qed

lemma run_inv_agent_calls: "run_inv wid (s\<lparr>g_agent_calls := n\<rparr>) a b = run_inv wid s a b"
  by (simp add: run_inv_def)

lemma run_inv_mono: "run_inv wid s a b \<Longrightarrow> a \<le> a' \<Longrightarrow> b \<le> b' \<Longrightarrow> run_inv wid s a' b'"
  by (auto simp: run_inv_def split: option.splits)

lemma sections_loop_inv:
  assumes "run_inv (gi_workflowId inp) s (sv_completedSections v) b"
  shows "case sections_loop agent clk inp chapter twc tws idx titles v s of
           (s', Inr v') \<Rightarrow> run_inv (gi_workflowId inp) s' (sv_completedSections v') b
         | (s', Inl e) \<Rightarrow> \<exists>a'. run_inv (gi_workflowId inp) s' a' b"
  using assms
proof (induction titles arbitrary: idx v s)
  case Nil
  then show ?case by simp
next
  case (Cons t rest)
  obtain tr n' r where ce: "chunked_execute agent (chunk_config inp chapter tws) idx (g_agent_calls s) = (tr, n', r)"
    by (cases "chunked_execute agent (chunk_config inp chapter tws) idx (g_agent_calls s)") auto
  show ?case
  proof (cases r)
    case (Inl e)
    let ?c = "(ctx Update (gi_workflowId inp))\<lparr> ctx_error := Some (''Failed to generate section '' @ dq @ t @ dq @ '': '' @ error_message e) \<rparr>"
    have "run_inv (gi_workflowId inp) (call_progress clk ?c (s\<lparr>g_agent_calls := n'\<rparr>)) (sv_completedSections v) b"
      using run_inv_update[of "gi_workflowId inp" "s\<lparr>g_agent_calls := n'\<rparr>" "sv_completedSections v" b ?c clk]
        Cons.prems
      by (simp add: run_inv_agent_calls ctx_def)
    then show ?thesis using ce Inl by auto
  next
    case (Inr res)
    let ?v' = "\<lparr> chapterSections = chapterSections v @
                         [\<lparr> sec_title = sectionTitle res, sec_content = content res,
                             sec_wordCount = wordCount res \<rparr>],
                      chapterWordCount = chapterWordCount v + wordCount res,
                      sv_completedSections = sv_completedSections v + 1 \<rparr>"
    let ?c = "(ctx Update (gi_workflowId inp))
                         \<lparr> ctx_completedSections := Some (sv_completedSections ?v'),
                            ctx_totalWordsGenerated := Some (twc + chapterWordCount ?v') \<rparr>"
    let ?s' = "call_progress clk ?c (s\<lparr>g_agent_calls := n'\<rparr>)"
    have "run_inv (gi_workflowId inp) ?s' (sv_completedSections ?v') b"
      using run_inv_update[of "gi_workflowId inp" "s\<lparr>g_agent_calls := n'\<rparr>" "sv_completedSections v" b ?c clk]
        Cons.prems
      by (simp add: run_inv_agent_calls ctx_def)
    from Cons.IH[OF this, of "Suc idx"] show ?thesis using ce Inr by (simp add: Let_def)
  qed
qed

lemma chapters_loop_inv:
  assumes "run_inv (gi_workflowId inp) s (cv_completedSections v) (int (length (generatedChapters v)))"
  shows "\<exists>a b. run_inv (gi_workflowId inp) (fst (chapters_loop agent clk inp chs v s)) a b"
  using assms
proof (induction chs arbitrary: v s)
  case Nil
  then show ?case by auto
next
  case (Cons chap rest)
  let ?wid = "gi_workflowId inp"
  let ?b = "int (length (generatedChapters v))"
  let ?c1 = "(ctx Update ?wid)
                    \<lparr> ctx_currentStep := Some (''Generating Chapter '' @ string_of_int (ch_number chap)
                                                @ '': '' @ ch_title chap),
                       ctx_completedSections := Some (cv_completedSections v) \<rparr>"
  let ?s1 = "call_progress clk ?c1 s"
  let ?tws = "ch_targetWordCount chap div int (length (ch_sections chap))"
  let ?sv0 = "\<lparr> chapterSections = [], chapterWordCount = 0, sv_completedSections = cv_completedSections v \<rparr>"
  have i1: "run_inv ?wid ?s1 (sv_completedSections ?sv0) ?b"
    using run_inv_update[of ?wid s "cv_completedSections v" ?b ?c1 clk] Cons.prems
    by (simp add: ctx_def)
  obtain s2 r where sl: "sections_loop agent clk inp chap (totalWordCount v) ?tws 0 (ch_sections chap) ?sv0 ?s1 = (s2, r)"
    by (cases "sections_loop agent clk inp chap (totalWordCount v) ?tws 0 (ch_sections chap) ?sv0 ?s1") auto
  note i2 = sections_loop_inv[OF i1, of agent clk chap "totalWordCount v" ?tws 0 "ch_sections chap"]
  show ?case
  proof (cases r)
    case (Inl e)
    then show ?thesis using i2 sl by (auto simp: Let_def)
  next
    case (Inr sv)
    then have i2': "run_inv ?wid s2 (sv_completedSections sv) ?b" using i2 sl by simp
    let ?content = "join [CHR 0x0A, CHR 0x0A]
                       (map (\<lambda>section. ''## '' @ show_opt (sec_title section) @ [CHR 0x0A, CHR 0x0A]
                                         @ sec_content section) (chapterSections sv))"
    let ?v' = "\<lparr> generatedChapters = generatedChapters v @
                             [\<lparr> gc_number = ch_number chap, gc_title = ch_title chap,
                                 gc_content = ?content, gc_wordCount = chapterWordCount sv,
                                 gc_sections = chapterSections sv \<rparr>],
                          totalWordCount = totalWordCount v + chapterWordCount sv,
                          cv_completedSections = sv_completedSections sv \<rparr>"
    let ?c3 = "(ctx Update ?wid)
                             \<lparr> ctx_completedChapters := Some (int (length (generatedChapters ?v'))),
                                ctx_totalWordsGenerated := Some (totalWordCount ?v'),
                                ctx_chapterCompleted := Some \<lparr> cc_chapterNumber = ch_number chap,
                                   cc_title = ch_title chap, cc_wordCount = chapterWordCount sv \<rparr> \<rparr>"
    let ?s3 = "call_progress clk ?c3 s2"
    have i3: "run_inv ?wid ?s3 (cv_completedSections ?v') (int (length (generatedChapters ?v')))"
      using run_inv_update[of ?wid s2 "sv_completedSections sv" ?b ?c3 clk] i2'
      by (simp add: ctx_def)
    from Cons.IH[OF i3] show ?thesis using sl Inr by (simp add: Let_def)
  qed
qed

lemma parse_outline0:
  "parseOutlineIntoChapters outline0 8000 =
     [\<lparr> ch_number = 1, ch_title = ''Basics'', ch_sections = [''Start''], ch_targetWordCount = 800 \<rparr>]"
  by code_simp

lemma update_keeps_status:
  "ctx_action c = Update \<Longrightarrow> status_of (exec_store clk c st) w = status_of st w"
  by (auto simp: exec_store_def execute_def execute_body_def status_of_def loadProgress_def
      saveProgress_def status_apply_update Let_def split: option.splits sum.splits)

lemma call_update_keeps_status:
  "ctx_action c = Update \<Longrightarrow> status_of (g_store (call_progress clk c s)) w = status_of (g_store s) w"
  by (simp add: call_progress_def Let_def update_keeps_status)

lemma sections_loop_status:
  "status_of (g_store (fst (sections_loop agent clk inp chap twc tws idx titles v s))) w
     = status_of (g_store s) w"
proof (induction titles arbitrary: idx v s)
  case Nil
  show ?case by simp
next
  case (Cons t rest)
  obtain tr n' r where ce: "chunked_execute agent (chunk_config inp chap tws) idx (g_agent_calls s) = (tr, n', r)"
    by (cases "chunked_execute agent (chunk_config inp chap tws) idx (g_agent_calls s)") auto
  show ?case
  proof (cases r)
    case (Inl e)
    then show ?thesis using ce by (simp add: call_update_keeps_status ctx_def)
  next
    case (Inr res)
    then show ?thesis using ce by (simp add: Let_def Cons.IH call_update_keeps_status ctx_def)
  qed
qed

lemma chapters_loop_status:
  "status_of (g_store (fst (chapters_loop agent clk inp chs v s))) w = status_of (g_store s) w"
proof (induction chs arbitrary: v s)
  case Nil
  show ?case by simp
next
  case (Cons chap rest)
  let ?c1 = "(ctx Update (gi_workflowId inp))
                    \<lparr> ctx_currentStep := Some (''Generating Chapter '' @ string_of_int (ch_number chap)
                                                @ '': '' @ ch_title chap),
                       ctx_completedSections := Some (cv_completedSections v) \<rparr>"
  let ?s1 = "call_progress clk ?c1 s"
  let ?tws = "ch_targetWordCount chap div int (length (ch_sections chap))"
  let ?sv0 = "\<lparr> chapterSections = [], chapterWordCount = 0, sv_completedSections = cv_completedSections v \<rparr>"
  have s1: "status_of (g_store ?s1) w = status_of (g_store s) w"
    by (simp add: call_update_keeps_status ctx_def)
  obtain s2 r where sl: "sections_loop agent clk inp chap (totalWordCount v) ?tws 0 (ch_sections chap) ?sv0 ?s1 = (s2, r)"
    by (cases "sections_loop agent clk inp chap (totalWordCount v) ?tws 0 (ch_sections chap) ?sv0 ?s1") auto
  have s2: "status_of (g_store s2) w = status_of (g_store s) w"
    using sections_loop_status[of agent clk inp chap "totalWordCount v" ?tws 0 "ch_sections chap" ?sv0 ?s1 w] sl s1
    by simp
  show ?case
  proof (cases r)
    case (Inl e)
    then show ?thesis using sl s2 by (simp add: Let_def)
  next
    case (Inr sv)
    then show ?thesis using sl s2 by (simp add: Let_def Cons.IH call_update_keeps_status ctx_def)
  qed
qed

lemma generate_state:
  "fst (generateAllContentStep agent clk inp s) =
     fst (chapters_loop agent clk inp (gi_chapters inp)
            \<lparr> generatedChapters = [], totalWordCount = 0, cv_completedSections = 0 \<rparr> s)"
  by (simp add: generateAllContentStep_def split: prod.splits sum.splits)

lemma generate_keeps_status:
  "status_of (g_store (fst (generateAllContentStep agent clk inp s))) w = status_of (g_store s) w"
  unfolding generate_state by (rule chapters_loop_status)

lemma plan_establishes_inv:
  assumes "initializeAndPlanStep clk wid outlineText pin (start_state st0) = (s1, gi)"
    and "gi_progressInitialized gi"
  shows "gi_workflowId gi = wid \<and> run_inv wid s1 0 0"
  using assms
  by (auto simp: initializeAndPlanStep_def Let_def init_ctx_def ctx_def execute_def
      execute_body_def call_progress_def exec_store_def start_state_def saveProgress_def
      run_inv_def never_decrease_def split: if_splits)

lemma plan_outline0:
  "gi_progressInitialized (snd (initializeAndPlanStep clock0 ''edu-1'' outline0 plan0 (start_state Map.empty)))
   \<and> gi_chapters (snd (initializeAndPlanStep clock0 ''edu-1'' outline0 plan0 (start_state Map.empty)))
       = [\<lparr> ch_number = 1, ch_title = ''Basics'', ch_sections = [''Start''], ch_targetWordCount = 800 \<rparr>]
   \<and> gi_workflowId (snd (initializeAndPlanStep clock0 ''edu-1'' outline0 plan0 (start_state Map.empty))) = ''edu-1''
   \<and> status_of (g_store (fst (initializeAndPlanStep clock0 ''edu-1'' outline0 plan0 (start_state Map.empty)))) ''edu-1''
       = Some in_progress"
  by (simp add: initializeAndPlanStep_def plan0_def parse_outline0 Let_def init_ctx_def ctx_def
     execute_def execute_body_def call_progress_def exec_store_def start_state_def saveProgress_def status_of_def)

lemma failing_chunk:
  assumes "maxRetries_of cfg = 3"
  shows "snd (snd (chunked_execute failing_agent cfg 0 n)) =
     Inl (Error (''Failed to generate content for section '' @ dq @ show_opt (array_get (cfg_sectionTitles cfg) 0) @ dq
                       @ '' after '' @ string_of_int (maxRetries_of cfg) @ '' attempts: model unavailable''))"
  using assms by (simp add: chunked_execute_def generateContentChunk_def chunk_loop.simps failing_agent_def split_beta)

lemma fail_sets_failed:
  "st wid = Some p \<Longrightarrow> ctx_action c = Fail \<Longrightarrow> ctx_workflowId c = wid \<Longrightarrow>
     status_of (exec_store clk c st) wid = Some failed"
  by (simp add: exec_store_def execute_def execute_body_def status_of_def loadProgress_def
      saveProgress_def apply_fail_def Let_def)

lemma update_keeps_record:
  "st wid = Some p \<Longrightarrow> ctx_action c = Update \<Longrightarrow> exec_store clk c st wid \<noteq> None"
  by (auto simp: exec_store_def execute_def execute_body_def loadProgress_def
      saveProgress_def Let_def split: option.splits)

lemma publish_failure_marks_failed:
  assumes "g_store s (pb_workflowId inp) = Some p"
    and "pb_approvedForPublication inp"
    and "\<And>c. pdf c = Inl e"
  shows "snd (generateFinalPDFStep pdf show_number clk inp s) = Inl e
     \<and> status_of (g_store (fst (generateFinalPDFStep pdf show_number clk inp s))) (pb_workflowId inp)
         = Some failed"
proof -
  let ?wid = "pb_workflowId inp"
  let ?c1 = "(ctx Update ?wid)\<lparr> ctx_currentStep := Some ''Generating final PDF'' \<rparr>"
  have "exec_store clk ?c1 (g_store s) ?wid \<noteq> None"
    using update_keeps_record [where st = "g_store s" and wid = ?wid and p = p and c = ?c1 and clk = clk]
      assms(1)
    by (simp add: ctx_def)
  then obtain q where q: "exec_store clk ?c1 (g_store s) ?wid = Some q" by blast
  show ?thesis
    using assms(2,3)
      fail_sets_failed [where st = "exec_store clk ?c1 (g_store s)" and wid = ?wid and p = q
        and clk = clk and c = "(ctx Fail ?wid)\<lparr> ctx_error := Some (''PDF generation failed: '' @ error_message e) \<rparr>"]
      q
    by (simp add: generateFinalPDFStep_def Let_def call_progress_def ctx_def)
qed

text \<open>The counters along the history of GENERATE alone.\<close>

lemma generate_counters_never_decrease:
  assumes "initializeAndPlanStep clk wid outlineText pin (start_state st0) = (s1, gi)"
    and "gi_progressInitialized gi"
  shows "never_decrease wid (g_trail (fst (generateAllContentStep agent clk gi s1)))"
proof -
  from plan_establishes_inv [OF assms] have w: "gi_workflowId gi = wid" and i: "run_inv wid s1 0 0"
    by simp_all
  let ?v0 = "\<lparr> generatedChapters = [], totalWordCount = 0, cv_completedSections = 0 \<rparr>"
  have "run_inv (gi_workflowId gi) s1 (cv_completedSections ?v0) (int (length (generatedChapters ?v0)))"
    using w i by simp
  from chapters_loop_inv [OF this, of agent clk "gi_chapters gi"]
  show ?thesis unfolding generate_state using w by (auto simp: run_inv_def)
qed

text \<open>GENERATE with the failing agent: the stage throws and the status stays as it was.\<close>

lemma generate_failure_example:
  "isl (snd (generateAllContentStep failing_agent clock0
        (snd (initializeAndPlanStep clock0 ''edu-1'' outline0 plan0 (start_state Map.empty)))
        (fst (initializeAndPlanStep clock0 ''edu-1'' outline0 plan0 (start_state Map.empty)))))
   \<and> status_of (g_store (fst (generateAllContentStep failing_agent clock0
        (snd (initializeAndPlanStep clock0 ''edu-1'' outline0 plan0 (start_state Map.empty)))
        (fst (initializeAndPlanStep clock0 ''edu-1'' outline0 plan0 (start_state Map.empty)))))) ''edu-1''
      = Some in_progress"
proof -
  let ?pl = "initializeAndPlanStep clock0 ''edu-1'' outline0 plan0 (start_state Map.empty)"
  have st: "status_of (g_store (fst (generateAllContentStep failing_agent clock0 (snd ?pl) (fst ?pl)))) ''edu-1''
      = Some in_progress"
    using plan_outline0 by (simp add: generate_keeps_status)
  have m: "\<And>inp chap tws. maxRetries_of (chunk_config inp chap tws) = 3"
    by (simp add: maxRetries_of_def chunk_config_def)
  have "isl (snd (generateAllContentStep failing_agent clock0 (snd ?pl) (fst ?pl)))"
    using plan_outline0 failing_chunk [OF m]
    by (simp add: generateAllContentStep_def Let_def split_beta split: prod.splits sum.splits)
  then show ?thesis using st by simp
qed

lemma ctx_fields:
  "ctx_action (ctx a w) = a" "ctx_workflowId (ctx a w) = w"
  "ctx_completedSections (ctx a w) = None" "ctx_completedChapters (ctx a w) = None"
  by (simp_all add: ctx_def)

lemma exec_store_terminal:
  assumes "ctx_action c = Complete \<or> ctx_action c = Fail" and "st (ctx_workflowId c) = Some p"
  shows "\<exists>q. exec_store clk c st = st(ctx_workflowId c \<mapsto> q)
           \<and> completedSections q = completedSections p \<and> completedChapters q = completedChapters p"
  using assms
  by (auto simp: exec_store_def execute_def execute_body_def loadProgress_def saveProgress_def
      apply_complete_def apply_fail_def Let_def)

lemma run_inv_terminal:
  assumes inv: "run_inv wid s a b"
    and act: "ctx_action c = Complete \<or> ctx_action c = Fail" and w: "ctx_workflowId c = wid"
  shows "run_inv wid (call_progress clk c s) a b"
proof -
  from inv obtain p where p: "g_store s wid = Some p" "completedSections p \<le> a" "completedChapters p \<le> b"
    by (auto simp: run_inv_def split: option.splits)
  from exec_store_terminal [OF act, of "g_store s" p clk] p(1) w
  obtain q where q: "exec_store clk c (g_store s) = (g_store s)(wid \<mapsto> q)"
      "completedSections q = completedSections p" "completedChapters q = completedChapters p"
    by auto
  let ?st' = "(g_store s)(wid \<mapsto> q)"
  have le: "counters_le wid (last (g_trail s)) ?st'"
    using inv p q by (auto simp: run_inv_def counters_le_def split: option.splits)
  have nd: "never_decrease wid (g_trail s @ [?st'])"
    unfolding never_decrease_def
    using inv le counters_le_trans [of wid]
    by (intro sorted_wrt_snoc_last) (auto simp: run_inv_def never_decrease_def)
  show ?thesis
    using nd p q by (auto simp: run_inv_def call_progress_def Let_def)
qed

lemma generate_inv:
  assumes "run_inv (gi_workflowId gi) s 0 0"
  shows "\<exists>a b. run_inv (gi_workflowId gi) (fst (generateAllContentStep agent clk gi s)) a b"
proof -
  let ?v0 = "\<lparr> generatedChapters = [], totalWordCount = 0, cv_completedSections = 0 \<rparr>"
  have "run_inv (gi_workflowId gi) s (cv_completedSections ?v0) (int (length (generatedChapters ?v0)))"
    using assms by simp
  from chapters_loop_inv [OF this, of agent clk "gi_chapters gi"]
  show ?thesis unfolding generate_state .
qed

lemma generate_workflowId:
  "generateAllContentStep agent clk gi s = (s', Inr ri) \<Longrightarrow> ri_workflowId ri = gi_workflowId gi"
  by (auto simp: generateAllContentStep_def split: prod.splits sum.splits)

lemma review_inv:
  assumes "run_inv (ri_workflowId ri) s a b"
  shows "run_inv (ri_workflowId ri) (fst (reviewContentStep review clk ri s)) a b"
proof -
  let ?c = "(ctx Update (ri_workflowId ri))\<lparr> ctx_currentStep := Some ''Reviewing generated content'' \<rparr>"
  have "run_inv (ri_workflowId ri) (call_progress clk ?c s) a b"
    using run_inv_update [of "ri_workflowId ri" s a b ?c clk] assms by (simp add: ctx_def)
  then show ?thesis
    by (simp add: reviewContentStep_def Let_def split: sum.splits)
qed

lemma review_workflowId:
  "reviewContentStep review clk ri s = (s', Inr pb) \<Longrightarrow> pb_workflowId pb = ri_workflowId ri"
  by (auto simp: reviewContentStep_def Let_def split: sum.splits)

lemma publish_inv:
  assumes "run_inv (pb_workflowId pb) s a b"
  shows "run_inv (pb_workflowId pb) (fst (generateFinalPDFStep pdf show_number clk pb s)) a b"
proof -
  let ?wid = "pb_workflowId pb"
  let ?c = "(ctx Update ?wid)\<lparr> ctx_currentStep := Some ''Generating final PDF'' \<rparr>"
  have i1: "run_inv ?wid (call_progress clk ?c s) a b"
    using run_inv_update [of ?wid s a b ?c clk] assms by (simp add: ctx_def)
  have t: "\<And>c. ctx_action c = Complete \<or> ctx_action c = Fail \<Longrightarrow> ctx_workflowId c = ?wid
      \<Longrightarrow> run_inv ?wid (call_progress clk c (call_progress clk ?c s)) a b"
    using run_inv_terminal [OF i1] by blast
  show ?thesis
    by (simp add: generateFinalPDFStep_def Let_def t ctx_fields split: sum.splits)
qed

text \<open>
  C9: for every run whose progress record was initialized by PLAN, along the stores that
  the Progress Store holds after the \<open>initialize\<close> call and after each later call of the
  pipeline (the \<open>update\<close> calls of GENERATE, REVIEW and PUBLISH, and the closing \<open>complete\<close>
  or \<open>fail\<close>), whether the run ends normally or with an exception, the stored
  \<open>completedSections\<close> and \<open>completedChapters\<close> never decrease.
\<close>

theorem C9_counters_never_decrease:
  assumes "x_outline ext = Inr outlineText"
    and "initializeAndPlanStep (x_clock ext) (x_workflowId ext) outlineText inputData (start_state st)
           = (s1, gi)"
    and "gi_progressInitialized gi"
  shows "never_decrease (x_workflowId ext) (g_trail (fst (run_workflow ext inputData st)))"
proof -
  let ?wid = "x_workflowId ext"
  from plan_establishes_inv [OF assms(2,3)]
  have w: "gi_workflowId gi = ?wid" and i1: "run_inv ?wid s1 0 0" by simp_all
  obtain s2 r2 where g: "generateAllContentStep (x_writing ext) (x_clock ext) gi s1 = (s2, r2)"
    by (cases "generateAllContentStep (x_writing ext) (x_clock ext) gi s1") auto
  from generate_inv [of gi s1 "x_writing ext" "x_clock ext"] i1 w g
  obtain a b where i2: "run_inv ?wid s2 a b" by auto
  have "\<exists>a b. run_inv ?wid (fst (run_workflow ext inputData st)) a b"
  proof (cases r2)
    case (Inl e)
    then show ?thesis using assms(1,2) g i2 by (auto simp: run_workflow_def)
  next
    case (Inr ri)
    have "generateAllContentStep (x_writing ext) (x_clock ext) gi s1 = (s2, Inr ri)"
      using g Inr by simp
    from generate_workflowId [OF this] have wr: "ri_workflowId ri = ?wid" using w by simp
    obtain s3 r3 where r: "reviewContentStep (x_review ext) (x_clock ext) ri s2 = (s3, r3)"
      by (cases "reviewContentStep (x_review ext) (x_clock ext) ri s2") auto
    have i3: "run_inv ?wid s3 a b"
      using review_inv [of ri s2 a b "x_review ext" "x_clock ext"] i2 wr r by simp
    show ?thesis
    proof (cases r3)
      case (Inl e)
      then show ?thesis using assms(1,2) g Inr r i3 by (auto simp: run_workflow_def)
    next
      case (Inr pb)
      have "reviewContentStep (x_review ext) (x_clock ext) ri s2 = (s3, Inr pb)"
        using r Inr by simp
      from review_workflowId [OF this] have wp: "pb_workflowId pb = ?wid" using wr by simp
      have "run_inv ?wid (fst (generateFinalPDFStep (x_pdf ext) (x_show_number ext) (x_clock ext) pb s3)) a b"
        using publish_inv [of pb s3 a b "x_pdf ext" "x_show_number ext" "x_clock ext"] i3 wp by simp
      then show ?thesis using assms(1,2) g \<open>r2 = Inr ri\<close> r Inr by (auto simp: run_workflow_def)
    qed
  qed
  then show ?thesis by (auto simp: run_inv_def)
qed

theorem C9_counters_never_decrease_witness:
  "never_decrease ''edu-1'' (g_trail (fst (run_workflow ext0 plan0 Map.empty)))"
proof -
  let ?pl = "initializeAndPlanStep clock0 ''edu-1'' outline0 plan0 (start_state Map.empty)"
  have a: "x_outline ext0 = Inr outline0" by (simp add: ext0_def)
  have b: "initializeAndPlanStep (x_clock ext0) (x_workflowId ext0) outline0 plan0 (start_state Map.empty)
      = (fst ?pl, snd ?pl)"
    by (simp add: ext0_def)
  have c: "gi_progressInitialized (snd ?pl)" using plan_outline0 by simp
  have "x_workflowId ext0 = ''edu-1''" by (simp add: ext0_def)
  then show ?thesis using C9_counters_never_decrease [OF a b c] by simp
qed

text \<open>
  C1 fails on the code for GENERATE. A run with one chapter of one section whose writing
  agent fails on every call: GENERATE ends with the exception, having issued an \<open>update\<close>
  with the error only, the run ends with it, and the status of the record is still
  \<open>in_progress\<close>. (PUBLISH does call \<open>fail\<close> before it throws: \<open>publish_failure_marks_failed\<close>.)
\<close>

theorem C1_generate_failure_leaves_in_progress:
  "isl (snd (run_workflow (ext0\<lparr>x_writing := failing_agent\<rparr>) plan0 Map.empty))
   \<and> status_of (g_store (fst (run_workflow (ext0\<lparr>x_writing := failing_agent\<rparr>) plan0 Map.empty)))
        ''edu-1'' = Some in_progress"
proof -
  let ?pl = "initializeAndPlanStep clock0 ''edu-1'' outline0 plan0 (start_state Map.empty)"
  let ?g = "generateAllContentStep failing_agent clock0 (snd ?pl) (fst ?pl)"
  obtain e where e: "snd ?g = Inl e"
    using generate_failure_example by (cases "snd ?g") auto
  have "run_workflow (ext0\<lparr>x_writing := failing_agent\<rparr>) plan0 Map.empty = (fst ?g, Inl e)"
    using e by (simp add: run_workflow_def ext0_def split_beta split: prod.splits sum.splits)
  then show ?thesis using generate_failure_example by simp
qed

theorem C1_generate_failure_leaves_in_progress_witness:
  "status_of (g_store (fst (run_workflow (ext0\<lparr>x_writing := failing_agent\<rparr>) plan0 Map.empty)))
      ''edu-1'' \<noteq> Some failed"
  using C1_generate_failure_leaves_in_progress by simp

end
